theory Spec2Isabelle
  imports Main "HOL-Library.Word" "HOL-Library.Sublist" "HOL-Library.Char_ord"
    "HOL-Library.List_Lexorder"
begin

section \<open>The data of the etcd keys API, as etcdclient.go uses it\<close>

text \<open>
  The client of etcdclient.go is a facade over the keys API of the etcd client package.
  That package is an external library: here it is a parameter of every operation (the record
  \<open>keys_api\<close> below), and only the fields the facade reads or sets are modelled.

  A node of the store, as the facade reads it: \<open>node.Key\<close>, \<open>node.Value\<close>, \<open>node.Dir\<close> and
  the children \<open>node.Nodes\<close>.
\<close>

datatype Node = Node (Key: string) (Value: string) (Dir: bool) (Nodes: "Node list")

text \<open>A response: the facade reads \<open>response.Node\<close> and \<open>response.Index\<close> (a uint64).\<close>

record Response =
  resp_Node :: Node
  resp_Index :: "64 word"

text \<open>The library's error struct \<open>client.Error\<close>: the facade reads its \<open>Code\<close>.\<close>

record client_Error =
  err_Code :: int
  err_Message :: string
  err_Cause :: string
  err_Index :: "64 word"

text \<open>
  A non-nil value of Go's interface type \<open>error\<close>, with its dynamic type. The type switch of
  \<open>shouldIgnoreError\<close> tells \<open>*client.Error\<close> from every other dynamic type, so the dynamic
  type is part of the value. \<open>client.Error\<close> declares its \<open>Error\<close> method on the value
  receiver, hence both the struct and a pointer to it are errors; any other error (one made by
  \<open>fmt.Errorf\<close>, a transport error) is \<open>OtherError\<close> with its message. The nil error is
  \<open>None\<close> of \<open>go_error option\<close>.
\<close>

datatype go_error =
    ValClientError client_Error
  | PtrClientError client_Error
  | OtherError string

text \<open>The option structs, with the fields the facade sets (every other field keeps its zero).\<close>

record GetOptions =
  get_Sort :: bool
  get_Recursive :: bool

datatype PrevExistType = PrevIgnore | PrevExist | PrevNoExist

record SetOptions =
  set_TTL :: "64 word"
  set_Dir :: bool
  set_PrevExist :: PrevExistType

record DeleteOptions =
  del_Dir :: bool
  del_Recursive :: bool

record WatcherOptions =
  watch_Recursive :: bool
  watch_AfterIndex :: "64 word"

text \<open>
  The library as the facade sees it, over a store state \<open>'st\<close>: the four requests of the keys
  API (each answers with an error or a response and leaves the store in a new state), the
  predicate \<open>client.IsKeyNotFound\<close> and the constant \<open>client.ErrorCodeEventIndexCleared\<close>.
  \<open>watcher_Next\<close> is \<open>api.Watcher(key, opts).Next(ctx)\<close>: making the watcher sends
  nothing, \<open>Next\<close> is the request.
\<close>

record 'st keys_api =
  api_Get :: "string \<Rightarrow> GetOptions option \<Rightarrow> 'st \<Rightarrow> (go_error + Response) \<times> 'st"
  api_Set :: "string \<Rightarrow> string \<Rightarrow> SetOptions option \<Rightarrow> 'st \<Rightarrow> (go_error + Response) \<times> 'st"
  api_Delete :: "string \<Rightarrow> DeleteOptions option \<Rightarrow> 'st \<Rightarrow> (go_error + Response) \<times> 'st"
  watcher_Next :: "string \<Rightarrow> WatcherOptions \<Rightarrow> 'st \<Rightarrow> (go_error + Response) \<times> 'st"
  IsKeyNotFound :: "go_error \<Rightarrow> bool"
  ErrorCodeEventIndexCleared :: int

text \<open>A request sent to the store.\<close>

datatype request =
    GetReq string "GetOptions option"
  | SetReq string string "SetOptions option"
  | DeleteReq string "DeleteOptions option"
  | WatchReq string WatcherOptions

text \<open>
  The world a call runs in: the state of the store, the requests sent to it so far, in order,
  and the state \<open>user\<close> that the caller's watch callback works on.
\<close>

record ('st, 'c) world =
  store :: 'st
  requests :: "request list"
  user :: 'c

definition send_Get ::
  "'st keys_api \<Rightarrow> string \<Rightarrow> GetOptions option \<Rightarrow> ('st, 'c) world
     \<Rightarrow> (go_error + Response) \<times> ('st, 'c) world" where
  "send_Get lib key opts w =
     (case api_Get lib key opts (store w) of
        (reply, s') \<Rightarrow> (reply, w\<lparr>store := s', requests := requests w @ [GetReq key opts]\<rparr>))"

definition send_Set ::
  "'st keys_api \<Rightarrow> string \<Rightarrow> string \<Rightarrow> SetOptions option \<Rightarrow> ('st, 'c) world
     \<Rightarrow> (go_error + Response) \<times> ('st, 'c) world" where
  "send_Set lib key val opts w =
     (case api_Set lib key val opts (store w) of
        (reply, s') \<Rightarrow> (reply, w\<lparr>store := s', requests := requests w @ [SetReq key val opts]\<rparr>))"

definition send_Delete ::
  "'st keys_api \<Rightarrow> string \<Rightarrow> DeleteOptions option \<Rightarrow> ('st, 'c) world
     \<Rightarrow> (go_error + Response) \<times> ('st, 'c) world" where
  "send_Delete lib key opts w =
     (case api_Delete lib key opts (store w) of
        (reply, s') \<Rightarrow> (reply, w\<lparr>store := s', requests := requests w @ [DeleteReq key opts]\<rparr>))"

definition send_Next ::
  "'st keys_api \<Rightarrow> string \<Rightarrow> WatcherOptions \<Rightarrow> ('st, 'c) world
     \<Rightarrow> (go_error + Response) \<times> ('st, 'c) world" where
  "send_Next lib key opts w =
     (case watcher_Next lib key opts (store w) of
        (reply, s') \<Rightarrow> (reply, w\<lparr>store := s', requests := requests w @ [WatchReq key opts]\<rparr>))"

section \<open>The operations of SimpleEtcdClient\<close>

text \<open>
  Each operation takes the library and the world and returns its Go results and the new world.
  A result of Go type \<open>error\<close> is a \<open>go_error option\<close>, \<open>None\<close> for nil.
\<close>

definition Del :: "'st keys_api \<Rightarrow> string \<Rightarrow> ('st, 'c) world \<Rightarrow> go_error option \<times> ('st, 'c) world" where
  "Del lib key w =
     (case send_Delete lib key None w of
        (Inl err, w') \<Rightarrow> if IsKeyNotFound lib err then (None, w') else (Some err, w')
      | (Inr _, w') \<Rightarrow> (None, w'))"

definition DelDir :: "'st keys_api \<Rightarrow> string \<Rightarrow> ('st, 'c) world \<Rightarrow> go_error option \<times> ('st, 'c) world" where
  "DelDir lib key w =
     (case send_Delete lib key (Some \<lparr>del_Dir = True, del_Recursive = True\<rparr>) w of
        (Inl err, w') \<Rightarrow> if IsKeyNotFound lib err then (None, w') else (Some err, w')
      | (Inr _, w') \<Rightarrow> (None, w'))"

definition Get ::
  "'st keys_api \<Rightarrow> string \<Rightarrow> ('st, 'c) world \<Rightarrow> (string \<times> go_error option) \<times> ('st, 'c) world" where
  "Get lib key w =
     (case send_Get lib key None w of
        (Inl err, w') \<Rightarrow> if IsKeyNotFound lib err then (([], None), w') else (([], Some err), w')
      | (Inr response, w') \<Rightarrow> ((Value (resp_Node response), None), w'))"

definition Set :: "'st keys_api \<Rightarrow> string \<Rightarrow> string \<Rightarrow> ('st, 'c) world \<Rightarrow> go_error option \<times> ('st, 'c) world" where
  "Set lib key val w =
     (case send_Set lib key val None w of
        (Inl err, w') \<Rightarrow> (Some err, w')
      | (Inr _, w') \<Rightarrow> (None, w'))"

definition UpdateDirWithTTL ::
  "'st keys_api \<Rightarrow> string \<Rightarrow> 64 word \<Rightarrow> ('st, 'c) world \<Rightarrow> go_error option \<times> ('st, 'c) world" where
  "UpdateDirWithTTL lib key ttl w =
     (case send_Set lib key [] (Some \<lparr>set_TTL = ttl, set_Dir = True, set_PrevExist = PrevExist\<rparr>) w of
        (Inl err, w') \<Rightarrow> (Some err, w')
      | (Inr _, w') \<Rightarrow> (None, w'))"

text \<open>
  \<open>nodesToStringSlice\<close>: the outer loop over the nodes appends the node's key and then, in the
  inner loop, every key of the recursive call on the node's children.
\<close>

fun nodesToStringSlice :: "Node list \<Rightarrow> string list" where
  "nodesToStringSlice [] = []"
| "nodesToStringSlice (Node key val dir nodes # rest) =
     ([key] @ nodesToStringSlice nodes) @ nodesToStringSlice rest"

definition Ls ::
  "'st keys_api \<Rightarrow> string \<Rightarrow> ('st, 'c) world \<Rightarrow> (string list \<times> go_error option) \<times> ('st, 'c) world" where
  "Ls lib directory w =
     (case send_Get lib directory (Some \<lparr>get_Sort = True, get_Recursive = False\<rparr>) w of
        (Inl err, w') \<Rightarrow> if IsKeyNotFound lib err then (([], None), w') else (([], Some err), w')
      | (Inr response, w') \<Rightarrow> ((nodesToStringSlice (Nodes (resp_Node response)), None), w'))"

definition LsRecursive ::
  "'st keys_api \<Rightarrow> string \<Rightarrow> ('st, 'c) world \<Rightarrow> (string list \<times> go_error option) \<times> ('st, 'c) world" where
  "LsRecursive lib directory w =
     (case send_Get lib directory (Some \<lparr>get_Sort = True, get_Recursive = True\<rparr>) w of
        (Inl err, w') \<Rightarrow> if IsKeyNotFound lib err then (([], None), w') else (([], Some err), w')
      | (Inr response, w') \<Rightarrow> ((nodesToStringSlice (Nodes (resp_Node response)), None), w'))"

definition refusing :: "string \<Rightarrow> go_error" where
  "refusing directory = OtherError (''Refusing to overwrite key/value with a directory: '' @ directory)"

definition MkDir :: "'st keys_api \<Rightarrow> string \<Rightarrow> ('st, 'c) world \<Rightarrow> go_error option \<times> ('st, 'c) world" where
  "MkDir lib directory w =
     (case send_Get lib directory None w of
        (Inl err, w') \<Rightarrow>
          if \<not> IsKeyNotFound lib err then (Some err, w')
          else (case send_Set lib directory []
                       (Some \<lparr>set_TTL = 0, set_Dir = True, set_PrevExist = PrevIgnore\<rparr>) w' of
                  (Inl err', w'') \<Rightarrow> (Some err', w'')
                | (Inr _, w'') \<Rightarrow> (None, w''))
      | (Inr results, w') \<Rightarrow>
          if \<not> Dir (resp_Node results) then (Some (refusing directory), w') else (None, w'))"

fun shouldIgnoreError :: "'st keys_api \<Rightarrow> go_error \<Rightarrow> bool" where
  "shouldIgnoreError lib (PtrClientError err) = (err_Code err = ErrorCodeEventIndexCleared lib)"
| "shouldIgnoreError lib _ = False"

text \<open>
  One turn of the \<open>for\<close> loop of \<open>WatchRecursive\<close>, from the cursor \<open>afterIndex\<close>: \<open>Inl\<close> is
  the \<open>return err\<close>, \<open>Inr\<close> the cursor and the world the next turn starts from (after
  \<open>continue\<close>, or after the assignment to \<open>afterIndex\<close> and the call of the callback).
\<close>

definition watchTurn ::
  "'st keys_api \<Rightarrow> string \<Rightarrow> (string \<Rightarrow> string \<Rightarrow> 'c \<Rightarrow> 'c) \<Rightarrow> 64 word \<Rightarrow> ('st, 'c) world
     \<Rightarrow> (go_error option \<times> ('st, 'c) world) + (64 word \<times> ('st, 'c) world)" where
  "watchTurn lib directory onChange afterIndex w =
     (case send_Next lib directory \<lparr>watch_Recursive = True, watch_AfterIndex = afterIndex\<rparr> w of
        (Inl err, w') \<Rightarrow>
          if shouldIgnoreError lib err then Inr (afterIndex, w') else Inl (Some err, w')
      | (Inr response, w') \<Rightarrow>
          Inr (resp_Index response,
               w'\<lparr>user := onChange (Key (resp_Node response)) (Value (resp_Node response)) (user w')\<rparr>))"

text \<open>The loop itself. It need not return: \<open>None\<close> is the run that goes on forever.\<close>

partial_function (option) watchLoop ::
  "'st keys_api \<Rightarrow> string \<Rightarrow> (string \<Rightarrow> string \<Rightarrow> 'c \<Rightarrow> 'c) \<Rightarrow> 64 word \<Rightarrow> ('st, 'c) world
     \<Rightarrow> (go_error option \<times> ('st, 'c) world) option" where
  "watchLoop lib directory onChange afterIndex w =
     (case watchTurn lib directory onChange afterIndex w of
        Inl result \<Rightarrow> Some result
      | Inr (afterIndex', w') \<Rightarrow> watchLoop lib directory onChange afterIndex' w')"

definition WatchRecursive ::
  "'st keys_api \<Rightarrow> string \<Rightarrow> (string \<Rightarrow> string \<Rightarrow> 'c \<Rightarrow> 'c) \<Rightarrow> ('st, 'c) world
     \<Rightarrow> (go_error option \<times> ('st, 'c) world) option" where
  "WatchRecursive lib directory onChange w = watchLoop lib directory onChange 0 w"

text \<open>
  The first \<open>n\<close> turns of the loop: the result if the loop has returned within them, and the
  cursor and world it has reached otherwise.
\<close>

fun watchTurns ::
  "nat \<Rightarrow> 'st keys_api \<Rightarrow> string \<Rightarrow> (string \<Rightarrow> string \<Rightarrow> 'c \<Rightarrow> 'c) \<Rightarrow> 64 word \<Rightarrow> ('st, 'c) world
     \<Rightarrow> (go_error option \<times> ('st, 'c) world) + (64 word \<times> ('st, 'c) world)" where
  "watchTurns 0 lib directory onChange afterIndex w = Inr (afterIndex, w)"
| "watchTurns (Suc n) lib directory onChange afterIndex w =
     (case watchTurn lib directory onChange afterIndex w of
        Inl result \<Rightarrow> Inl result
      | Inr (afterIndex', w') \<Rightarrow> watchTurns n lib directory onChange afterIndex' w')"

subsection \<open>Shorthands for the statements\<close>

text \<open>The options of the Set by which MkDir makes the directory.\<close>

definition mkdir_opts :: "SetOptions option" where
  "mkdir_opts = Some \<lparr>set_TTL = 0, set_Dir = True, set_PrevExist = PrevIgnore\<rparr>"

text \<open>The outcome of a write as the facade returns it: the store's error, or nil.\<close>

definition error_of :: "go_error + Response \<Rightarrow> go_error option" where
  "error_of reply = (case reply of Inl err \<Rightarrow> Some err | Inr _ \<Rightarrow> None)"

text \<open>The world that one turn of the watch loop ends in.\<close>

definition turn_world ::
  "(go_error option \<times> ('st, 'c) world) + (64 word \<times> ('st, 'c) world) \<Rightarrow> ('st, 'c) world" where
  "turn_world outcome = (case outcome of Inl (_, w) \<Rightarrow> w | Inr (_, w) \<Rightarrow> w)"

section \<open>What the specification says, as definitions\<close>

text \<open>
  The listing order in the specification's words: depth-first, a node's key before the keys of
  its children, a directory's subtree enumerated in full before the directory's next sibling.
\<close>

fun preorder :: "Node \<Rightarrow> string list" where
  "preorder (Node key val dir nodes) = key # concat (map preorder nodes)"

definition preorder_forest :: "Node list \<Rightarrow> string list" where
  "preorder_forest nodes = concat (map preorder nodes)"

text \<open>
  The levels of a forest: the keys of the roots, in the order given, and then the levels of
  the children of every root. A level is one group of siblings.
\<close>

fun levels_below :: "Node \<Rightarrow> string list list" where
  "levels_below (Node key val dir nodes) = map Key nodes # concat (map levels_below nodes)"

definition levels :: "Node list \<Rightarrow> string list list" where
  "levels nodes = map Key nodes # concat (map levels_below nodes)"

text \<open>
  Keys are compared as Go compares strings, byte by byte (the lexicographic order of
  \<open>char list\<close>). A forest has sorted levels when the store has sorted every group of siblings,
  which is what the option \<open>Sort\<close> of a Get asks of it.
\<close>

definition sorted_levels :: "Node list \<Rightarrow> bool" where
  "sorted_levels nodes = list_all sorted (levels nodes)"

text \<open>A key is absent when a plain Get of it is answered with the key-not-found error.\<close>

definition absent :: "'st keys_api \<Rightarrow> string \<Rightarrow> 'st \<Rightarrow> bool" where
  "absent lib key s =
     (case fst (api_Get lib key None s) of Inl err \<Rightarrow> IsKeyNotFound lib err | Inr _ \<Rightarrow> False)"

text \<open>
  The contract of the store that the facade relies on, one law for each place where a
  property of the facade speaks of what the store does with a request.

  A value that was set is the value a plain Get reads next.
\<close>

definition set_is_read :: "'st keys_api \<Rightarrow> bool" where
  "set_is_read lib =
     (\<forall>key val s r s'. api_Set lib key val None s = (Inr r, s') \<longrightarrow>
        (\<exists>response s''. api_Get lib key None s' = (Inr response, s'')
           \<and> Value (resp_Node response) = val))"

text \<open>A directory that was set is a directory for the plain Get that comes next.\<close>

definition dir_is_read :: "'st keys_api \<Rightarrow> bool" where
  "dir_is_read lib =
     (\<forall>key opts s r s'. api_Set lib key [] (Some opts) s = (Inr r, s') \<and> set_Dir opts \<longrightarrow>
        (\<exists>response s''. api_Get lib key None s' = (Inr response, s'')
           \<and> Dir (resp_Node response)))"

text \<open>A Get reads: it leaves the store as it is.\<close>

definition get_reads_only :: "'st keys_api \<Rightarrow> bool" where
  "get_reads_only lib = (\<forall>key opts s. snd (api_Get lib key opts s) = s)"

text \<open>A Set under \<open>PrevExist\<close> is refused with an error when the key is absent.\<close>

definition honours_PrevExist :: "'st keys_api \<Rightarrow> bool" where
  "honours_PrevExist lib =
     (\<forall>key val opts s. set_PrevExist opts = PrevExist \<and> absent lib key s \<longrightarrow>
        isl (fst (api_Set lib key val (Some opts) s)))"

text \<open>A watch answers only with an event whose revision is beyond \<open>AfterIndex\<close>.\<close>

definition honours_AfterIndex :: "'st keys_api \<Rightarrow> bool" where
  "honours_AfterIndex lib =
     (\<forall>key opts s response s'. watcher_Next lib key opts s = (Inr response, s') \<longrightarrow>
        watch_AfterIndex opts < resp_Index response)"

text \<open>
  The events that the first \<open>n\<close> turns of the watch loop have handed to the callback, oldest
  first. The recursion is that of \<open>watchTurns\<close>.
\<close>

fun delivered ::
  "nat \<Rightarrow> 'st keys_api \<Rightarrow> string \<Rightarrow> (string \<Rightarrow> string \<Rightarrow> 'c \<Rightarrow> 'c) \<Rightarrow> 64 word \<Rightarrow> ('st, 'c) world
     \<Rightarrow> Response list" where
  "delivered 0 lib directory onChange afterIndex w = []"
| "delivered (Suc n) lib directory onChange afterIndex w =
     (case send_Next lib directory \<lparr>watch_Recursive = True, watch_AfterIndex = afterIndex\<rparr> w of
        (Inl err, w') \<Rightarrow>
          if shouldIgnoreError lib err then delivered n lib directory onChange afterIndex w' else []
      | (Inr response, w') \<Rightarrow>
          response # delivered n lib directory onChange (resp_Index response)
            (w'\<lparr>user := onChange (Key (resp_Node response)) (Value (resp_Node response)) (user w')\<rparr>))"

definition deliver :: "(string \<Rightarrow> string \<Rightarrow> 'c \<Rightarrow> 'c) \<Rightarrow> 'c \<Rightarrow> Response \<Rightarrow> 'c" where
  "deliver onChange u response = onChange (Key (resp_Node response)) (Value (resp_Node response)) u"

section \<open>An in-memory store\<close>

text \<open>
  A store to run the facade on: a table from keys to nodes, a revision counter, the answers
  its watch will give next, and a fault that, when set, is the answer to every request. The
  theorems about the facade hold for every store; this one supplies concrete runs of them.
  Its errors are those of the etcd client package: a \<open>client.Error\<close> value with the code 100
  for a key that is not there, 102 for a directory where a file is needed, 105 for a key that
  is there already; 401 is the code of a cleared event index.
\<close>

record mem_store =
  mem_nodes :: "string \<Rightarrow> Node option"
  mem_index :: "64 word"
  mem_feed :: "(go_error + Response) list"
  mem_fault :: "go_error option"

definition mem_error :: "int \<Rightarrow> string \<Rightarrow> string \<Rightarrow> mem_store \<Rightarrow> go_error" where
  "mem_error code msg key s =
     ValClientError \<lparr>err_Code = code, err_Message = msg, err_Cause = key, err_Index = mem_index s\<rparr>"

definition mem_write :: "string \<Rightarrow> Node \<Rightarrow> mem_store \<Rightarrow> (go_error + Response) \<times> mem_store" where
  "mem_write key n s =
     (Inr \<lparr>resp_Node = n, resp_Index = mem_index s + 1\<rparr>,
      s\<lparr>mem_nodes := (mem_nodes s)(key \<mapsto> n), mem_index := mem_index s + 1\<rparr>)"

text \<open>A node as a Get that is not recursive shows it: its children without theirs.\<close>

definition shallow :: "Node \<Rightarrow> Node" where
  "shallow n = Node (Key n) (Value n) (Dir n) (map (\<lambda>c. Node (Key c) (Value c) (Dir c) []) (Nodes n))"

definition mem_Get :: "string \<Rightarrow> GetOptions option \<Rightarrow> mem_store \<Rightarrow> (go_error + Response) \<times> mem_store" where
  "mem_Get key opts s =
     (case mem_fault s of
        Some e \<Rightarrow> (Inl e, s)
      | None \<Rightarrow>
          (case mem_nodes s key of
             None \<Rightarrow> (Inl (mem_error 100 ''Key not found'' key s), s)
           | Some n \<Rightarrow>
               (Inr \<lparr>resp_Node = (if (case opts of None \<Rightarrow> False | Some g \<Rightarrow> get_Recursive g)
                                    then n else shallow n),
                     resp_Index = mem_index s\<rparr>, s)))"

definition mem_Set ::
  "string \<Rightarrow> string \<Rightarrow> SetOptions option \<Rightarrow> mem_store \<Rightarrow> (go_error + Response) \<times> mem_store" where
  "mem_Set key val opts s =
     (let dir = (case opts of None \<Rightarrow> False | Some so \<Rightarrow> set_Dir so);
          prev = (case opts of None \<Rightarrow> PrevIgnore | Some so \<Rightarrow> set_PrevExist so)
      in case mem_fault s of
           Some e \<Rightarrow> (Inl e, s)
         | None \<Rightarrow>
             (case mem_nodes s key of
                None \<Rightarrow>
                  if prev = PrevExist then (Inl (mem_error 100 ''Key not found'' key s), s)
                  else mem_write key (Node key (if dir then [] else val) dir []) s
              | Some n \<Rightarrow>
                  if prev = PrevNoExist then (Inl (mem_error 105 ''Key already exists'' key s), s)
                  else if Dir n then
                    (if dir \<and> prev = PrevExist then mem_write key n s
                     else (Inl (mem_error 102 ''Not a file'' key s), s))
                  else mem_write key (Node key (if dir then [] else val) dir []) s))"

definition mem_Delete ::
  "string \<Rightarrow> DeleteOptions option \<Rightarrow> mem_store \<Rightarrow> (go_error + Response) \<times> mem_store" where
  "mem_Delete key opts s =
     (case mem_fault s of
        Some e \<Rightarrow> (Inl e, s)
      | None \<Rightarrow>
          (case mem_nodes s key of
             None \<Rightarrow> (Inl (mem_error 100 ''Key not found'' key s), s)
           | Some n \<Rightarrow>
               if Dir n \<and> (case opts of None \<Rightarrow> True | Some dopts \<Rightarrow> \<not> del_Dir dopts) then
                 (Inl (mem_error 102 ''Not a file'' key s), s)
               else
                 (Inr \<lparr>resp_Node = n, resp_Index = mem_index s + 1\<rparr>,
                  s\<lparr>mem_nodes := (mem_nodes s)(key := None), mem_index := mem_index s + 1\<rparr>)))"

text \<open>
  The watch answers with the next entry of the feed, after the events that are not beyond
  \<open>AfterIndex\<close>: those the watcher has seen.
\<close>

definition seen :: "64 word \<Rightarrow> go_error + Response \<Rightarrow> bool" where
  "seen afterIndex reply =
     (case reply of Inl _ \<Rightarrow> False | Inr response \<Rightarrow> resp_Index response \<le> afterIndex)"

definition mem_Next ::
  "string \<Rightarrow> WatcherOptions \<Rightarrow> mem_store \<Rightarrow> (go_error + Response) \<times> mem_store" where
  "mem_Next key opts s =
     (case mem_fault s of
        Some e \<Rightarrow> (Inl e, s)
      | None \<Rightarrow>
          (case dropWhile (seen (watch_AfterIndex opts)) (mem_feed s) of
             [] \<Rightarrow> (Inl (OtherError ''watch closed''), s\<lparr>mem_feed := []\<rparr>)
           | reply # rest \<Rightarrow> (reply, s\<lparr>mem_feed := rest\<rparr>)))"

fun mem_IsKeyNotFound :: "go_error \<Rightarrow> bool" where
  "mem_IsKeyNotFound (ValClientError err) = (err_Code err = 100)"
| "mem_IsKeyNotFound _ = False"

definition mem_api :: "mem_store keys_api" where
  "mem_api =
     \<lparr>api_Get = mem_Get, api_Set = mem_Set, api_Delete = mem_Delete, watcher_Next = mem_Next,
      IsKeyNotFound = mem_IsKeyNotFound, ErrorCodeEventIndexCleared = 401\<rparr>"

definition mem_empty :: mem_store where
  "mem_empty = \<lparr>mem_nodes = Map.empty, mem_index = 0, mem_feed = [], mem_fault = None\<rparr>"

definition world_of :: "'st \<Rightarrow> ('st, (string \<times> string) list) world" where
  "world_of s = \<lparr>store = s, requests = [], user = []\<rparr>"

text \<open>A callback that keeps the list of the calls made to it.\<close>

definition record_call :: "string \<Rightarrow> string \<Rightarrow> (string \<times> string) list \<Rightarrow> (string \<times> string) list" where
  "record_call key val calls = calls @ [(key, val)]"

text \<open>The same store with a fault: every request is answered with a transport error.\<close>

definition mem_down :: mem_store where
  "mem_down = mem_empty\<lparr>mem_fault := Some (OtherError ''connection refused'')\<rparr>"

text \<open>The store that holds the single leaf \<open>/k\<close> with the value \<open>v\<close>.\<close>

definition mem_leaf :: mem_store where
  "mem_leaf = mem_empty\<lparr>mem_nodes := [''/k'' \<mapsto> Node ''/k'' ''v'' False []], mem_index := 1\<rparr>"

text \<open>The store that holds the single, empty directory \<open>/d\<close>.\<close>

definition mem_dir :: mem_store where
  "mem_dir = mem_empty\<lparr>mem_nodes := [''/d'' \<mapsto> Node ''/d'' '''' True []], mem_index := 1\<rparr>"

text \<open>
  The store that holds the directory \<open>/a\<close> with the directory \<open>/a/b\<close>, its leaf
  \<open>/a/b/c\<close>, and the leaf \<open>/a/d\<close>.
\<close>

definition mem_tree :: mem_store where
  "mem_tree = mem_empty
     \<lparr>mem_nodes :=
        [''/a'' \<mapsto> Node ''/a'' '''' True
           [Node ''/a/b'' '''' True [Node ''/a/b/c'' ''v'' False []],
            Node ''/a/d'' ''1'' False []]],
      mem_index := 2\<rparr>"

text \<open>
  Two events under \<open>/a\<close>, and two errors with the code of a cleared event index: the value
  of the struct \<open>client.Error\<close>, and a pointer to it.
\<close>

definition event7 :: Response where
  "event7 = \<lparr>resp_Node = Node ''/a/x'' ''v'' False [], resp_Index = 7\<rparr>"

definition event9 :: Response where
  "event9 = \<lparr>resp_Node = Node ''/a/y'' ''w'' False [], resp_Index = 9\<rparr>"

definition cleared :: client_Error where
  "cleared = \<lparr>err_Code = 401, err_Message = ''The event in requested index is outdated and cleared'',
     err_Cause = [], err_Index = 8\<rparr>"

text \<open>
  Stores whose watch reports the first event, then the cleared event index (by value, by
  pointer), then the second event.
\<close>

definition mem_cleared_val :: mem_store where
  "mem_cleared_val = mem_empty\<lparr>mem_feed := [Inr event7, Inl (ValClientError cleared), Inr event9]\<rparr>"

definition mem_cleared_ptr :: mem_store where
  "mem_cleared_ptr = mem_empty\<lparr>mem_feed := [Inr event7, Inl (PtrClientError cleared), Inr event9]\<rparr>"

section \<open>Requests and their answers\<close>

lemma send_Get_eq:
  "api_Get lib key opts (store w) = (reply, s') \<Longrightarrow>
   send_Get lib key opts w = (reply, w\<lparr>store := s', requests := requests w @ [GetReq key opts]\<rparr>)"
  by (simp add: send_Get_def)

lemma send_Set_eq:
  "api_Set lib key val opts (store w) = (reply, s') \<Longrightarrow>
   send_Set lib key val opts w = (reply, w\<lparr>store := s', requests := requests w @ [SetReq key val opts]\<rparr>)"
  by (simp add: send_Set_def)

lemma send_Delete_eq:
  "api_Delete lib key opts (store w) = (reply, s') \<Longrightarrow>
   send_Delete lib key opts w = (reply, w\<lparr>store := s', requests := requests w @ [DeleteReq key opts]\<rparr>)"
  by (simp add: send_Delete_def)

lemma send_Next_eq:
  "watcher_Next lib key opts (store w) = (reply, s') \<Longrightarrow>
   send_Next lib key opts w = (reply, w\<lparr>store := s', requests := requests w @ [WatchReq key opts]\<rparr>)"
  by (simp add: send_Next_def)

lemma fst_send_Get: "fst (send_Get lib key opts w) = fst (api_Get lib key opts (store w))"
  by (simp add: send_Get_def split: prod.splits)

lemma Get_reply:
  "api_Get lib key None (store w) = (reply, s') \<Longrightarrow>
   Get lib key w =
     ((case reply of
         Inl err \<Rightarrow> if IsKeyNotFound lib err then ('''', None) else ('''', Some err)
       | Inr response \<Rightarrow> (Value (resp_Node response), None)),
      w\<lparr>store := s', requests := requests w @ [GetReq key None]\<rparr>)"
  by (simp add: Get_def send_Get_eq split: sum.splits)

lemma Set_reply:
  "api_Set lib key val None (store w) = (reply, s') \<Longrightarrow>
   Set lib key val w =
     ((case reply of Inl err \<Rightarrow> Some err | Inr _ \<Rightarrow> None),
      w\<lparr>store := s', requests := requests w @ [SetReq key val None]\<rparr>)"
  by (simp add: Set_def send_Set_eq split: sum.splits)

lemma UpdateDirWithTTL_reply:
  "api_Set lib key '''' (Some \<lparr>set_TTL = ttl, set_Dir = True, set_PrevExist = PrevExist\<rparr>) (store w)
     = (reply, s') \<Longrightarrow>
   UpdateDirWithTTL lib key ttl w =
     ((case reply of Inl err \<Rightarrow> Some err | Inr _ \<Rightarrow> None),
      w\<lparr>store := s',
        requests := requests w @
          [SetReq key '''' (Some \<lparr>set_TTL = ttl, set_Dir = True, set_PrevExist = PrevExist\<rparr>)]\<rparr>)"
  by (simp add: UpdateDirWithTTL_def send_Set_eq split: sum.splits)

lemma Ls_reply:
  "api_Get lib directory (Some \<lparr>get_Sort = True, get_Recursive = False\<rparr>) (store w) = (reply, s') \<Longrightarrow>
   Ls lib directory w =
     ((case reply of
         Inl err \<Rightarrow> if IsKeyNotFound lib err then ([], None) else ([], Some err)
       | Inr response \<Rightarrow> (nodesToStringSlice (Nodes (resp_Node response)), None)),
      w\<lparr>store := s',
        requests := requests w @ [GetReq directory (Some \<lparr>get_Sort = True, get_Recursive = False\<rparr>)]\<rparr>)"
  by (simp add: Ls_def send_Get_eq split: sum.splits)

lemma LsRecursive_reply:
  "api_Get lib directory (Some \<lparr>get_Sort = True, get_Recursive = True\<rparr>) (store w) = (reply, s') \<Longrightarrow>
   LsRecursive lib directory w =
     ((case reply of
         Inl err \<Rightarrow> if IsKeyNotFound lib err then ([], None) else ([], Some err)
       | Inr response \<Rightarrow> (nodesToStringSlice (Nodes (resp_Node response)), None)),
      w\<lparr>store := s',
        requests := requests w @ [GetReq directory (Some \<lparr>get_Sort = True, get_Recursive = True\<rparr>)]\<rparr>)"
  by (simp add: LsRecursive_def send_Get_eq split: sum.splits)

lemma Del_reply:
  "api_Delete lib key None (store w) = (reply, s') \<Longrightarrow>
   Del lib key w =
     ((case reply of Inl err \<Rightarrow> if IsKeyNotFound lib err then None else Some err | Inr _ \<Rightarrow> None),
      w\<lparr>store := s', requests := requests w @ [DeleteReq key None]\<rparr>)"
  by (simp add: Del_def send_Delete_eq split: sum.splits)

lemma DelDir_reply:
  "api_Delete lib key (Some \<lparr>del_Dir = True, del_Recursive = True\<rparr>) (store w) = (reply, s') \<Longrightarrow>
   DelDir lib key w =
     ((case reply of Inl err \<Rightarrow> if IsKeyNotFound lib err then None else Some err | Inr _ \<Rightarrow> None),
      w\<lparr>store := s',
        requests := requests w @ [DeleteReq key (Some \<lparr>del_Dir = True, del_Recursive = True\<rparr>)]\<rparr>)"
  by (simp add: DelDir_def send_Delete_eq split: sum.splits)

lemma absentE:
  assumes "absent lib key s"
  obtains err s1 where "api_Get lib key None s = (Inl err, s1)" and "IsKeyNotFound lib err"
  using assms unfolding absent_def
  by (cases "api_Get lib key None s") (auto split: sum.splits)

lemma MkDir_absent:
  assumes "api_Get lib directory None (store w) = (Inl err, s1)" and "IsKeyNotFound lib err"
    and "api_Set lib directory '''' mkdir_opts s1 = (reply, s2)"
  shows "MkDir lib directory w =
     (error_of reply,
      w\<lparr>store := s2, requests := requests w @ [GetReq directory None, SetReq directory '''' mkdir_opts]\<rparr>)"
  using assms
  by (simp add: MkDir_def send_Get_eq send_Set_eq mkdir_opts_def error_of_def split: sum.splits)

lemma MkDir_error:
  assumes "api_Get lib directory None (store w) = (Inl err, s1)" and "\<not> IsKeyNotFound lib err"
  shows "MkDir lib directory w =
     (Some err, w\<lparr>store := s1, requests := requests w @ [GetReq directory None]\<rparr>)"
  using assms by (simp add: MkDir_def send_Get_eq)

lemma MkDir_present:
  assumes "api_Get lib directory None (store w) = (Inr results, s1)"
  shows "MkDir lib directory w =
     (if Dir (resp_Node results) then None else Some (refusing directory),
      w\<lparr>store := s1, requests := requests w @ [GetReq directory None]\<rparr>)"
  using assms by (simp add: MkDir_def send_Get_eq)

lemma MkDir_creates:
  assumes "absent lib directory (store w)"
  shows "fst (MkDir lib directory w)
           = error_of (fst (api_Set lib directory '''' mkdir_opts (snd (api_Get lib directory None (store w)))))
         \<and> requests (snd (MkDir lib directory w))
           = requests w @ [GetReq directory None, SetReq directory '''' mkdir_opts]"
proof -
  from assms obtain err s1 where g: "api_Get lib directory None (store w) = (Inl err, s1)"
    and nf: "IsKeyNotFound lib err" by (rule absentE)
  obtain reply s2 where s: "api_Set lib directory '''' mkdir_opts s1 = (reply, s2)"
    by (cases "api_Set lib directory '''' mkdir_opts s1")
  from MkDir_absent [OF g nf s] g s show ?thesis by simp
qed

lemma MkDir_existing:
  assumes "fst (api_Get lib directory None (store w)) = Inr results"
  shows "MkDir lib directory w =
     (if Dir (resp_Node results) then None else Some (refusing directory),
      w\<lparr>store := snd (api_Get lib directory None (store w)),
        requests := requests w @ [GetReq directory None]\<rparr>)"
proof -
  from assms obtain s1 where g: "api_Get lib directory None (store w) = (Inr results, s1)"
    by (cases "api_Get lib directory None (store w)") auto
  from MkDir_present [OF g] g show ?thesis by simp
qed

lemma MkDir_requests:
  "requests (snd (MkDir lib directory w)) =
     requests w @ (if absent lib directory (store w)
                   then [GetReq directory None, SetReq directory '''' mkdir_opts]
                   else [GetReq directory None])"
proof (cases "absent lib directory (store w)")
  case True
  with MkDir_creates [OF True] show ?thesis by simp
next
  case False
  obtain reply s1 where g: "api_Get lib directory None (store w) = (reply, s1)"
    by (cases "api_Get lib directory None (store w)")
  show ?thesis
  proof (cases reply)
    case (Inl err)
    with False g have "\<not> IsKeyNotFound lib err" by (simp add: absent_def)
    with MkDir_error [of lib directory w err s1] g Inl False show ?thesis by simp
  next
    case (Inr results)
    with MkDir_present [of lib directory w results s1] g False show ?thesis by simp
  qed
qed

section \<open>The in-memory store: its answers and the laws it keeps\<close>

lemma mem_simps:
  "api_Get mem_api = mem_Get" "api_Set mem_api = mem_Set" "api_Delete mem_api = mem_Delete"
  "watcher_Next mem_api = mem_Next" "IsKeyNotFound mem_api = mem_IsKeyNotFound"
  "ErrorCodeEventIndexCleared mem_api = 401"
  by (simp_all add: mem_api_def)

lemma mem_Get_missing:
  "mem_Get ''/missing'' opts mem_empty =
     (Inl (ValClientError \<lparr>err_Code = 100, err_Message = ''Key not found'', err_Cause = ''/missing'',
        err_Index = 0\<rparr>), mem_empty)"
  by (simp add: mem_Get_def mem_empty_def mem_error_def)

lemma mem_Get_down: "mem_Get key opts mem_down = (Inl (OtherError ''connection refused''), mem_down)"
  by (simp add: mem_Get_def mem_down_def mem_empty_def)

lemma mem_Get_leaf:
  "mem_Get ''/k'' None mem_leaf = (Inr \<lparr>resp_Node = Node ''/k'' ''v'' False [], resp_Index = 1\<rparr>, mem_leaf)"
  by (simp add: mem_Get_def mem_leaf_def mem_empty_def shallow_def)

lemma mem_Get_tree:
  "mem_Get ''/a'' (Some \<lparr>get_Sort = True, get_Recursive = True\<rparr>) mem_tree =
     (Inr \<lparr>resp_Node = Node ''/a'' '''' True
           [Node ''/a/b'' '''' True [Node ''/a/b/c'' ''v'' False []],
            Node ''/a/d'' ''1'' False []], resp_Index = 2\<rparr>, mem_tree)"
  by (simp add: mem_Get_def mem_tree_def mem_empty_def)

lemma mem_Delete_missing:
  "mem_Delete ''/missing'' opts mem_empty =
     (Inl (ValClientError \<lparr>err_Code = 100, err_Message = ''Key not found'', err_Cause = ''/missing'',
        err_Index = 0\<rparr>), mem_empty)"
  by (simp add: mem_Delete_def mem_empty_def mem_error_def)

lemma mem_Delete_down:
  "mem_Delete key opts mem_down = (Inl (OtherError ''connection refused''), mem_down)"
  by (simp add: mem_Delete_def mem_down_def mem_empty_def)

lemma mem_Set_update_absent:
  "mem_Set ''/d'' '''' (Some \<lparr>set_TTL = ttl, set_Dir = True, set_PrevExist = PrevExist\<rparr>) mem_empty =
     (Inl (ValClientError \<lparr>err_Code = 100, err_Message = ''Key not found'', err_Cause = ''/d'',
        err_Index = 0\<rparr>), mem_empty)"
  by (simp add: mem_Set_def mem_empty_def mem_error_def)

lemma mem_Set_update_dir:
  "fst (mem_Set ''/d'' '''' (Some \<lparr>set_TTL = ttl, set_Dir = True, set_PrevExist = PrevExist\<rparr>) mem_dir) =
     Inr \<lparr>resp_Node = Node ''/d'' '''' True [], resp_Index = 2\<rparr>"
  by (simp add: mem_Set_def mem_dir_def mem_empty_def mem_write_def)

lemma mem_absent_d: "absent mem_api ''/d'' (store (world_of mem_empty))"
  by (simp add: absent_def mem_simps mem_Get_def mem_empty_def world_of_def mem_error_def)

lemma mem_MkDir_d: "fst (MkDir mem_api ''/d'' (world_of mem_empty)) = None"
  by (simp add: MkDir_def send_Get_def send_Set_def mem_simps mem_Get_def mem_Set_def mem_write_def
      mem_empty_def world_of_def mem_error_def)

lemma mem_set_is_read: "set_is_read mem_api"
  unfolding set_is_read_def
  by (auto simp: mem_simps mem_Set_def mem_Get_def mem_write_def shallow_def Let_def
      split: option.splits if_splits)

lemma mem_dir_is_read: "dir_is_read mem_api"
  unfolding dir_is_read_def
  by (auto simp: mem_simps mem_Set_def mem_Get_def mem_write_def shallow_def Let_def
      split: option.splits if_splits)

lemma mem_get_reads_only: "get_reads_only mem_api"
  unfolding get_reads_only_def
  by (auto simp: mem_simps mem_Get_def split: option.splits)

lemma mem_honours_PrevExist: "honours_PrevExist mem_api"
  unfolding honours_PrevExist_def absent_def
  by (auto simp: mem_simps mem_Set_def mem_Get_def Let_def split: option.splits)

lemma dropWhile_head: "dropWhile P xs = y # ys \<Longrightarrow> \<not> P y"
  by (metis hd_dropWhile list.distinct(1) list.sel(1))

lemma mem_honours_AfterIndex: "honours_AfterIndex mem_api"
  unfolding honours_AfterIndex_def
  by (auto simp: mem_simps mem_Next_def seen_def split: option.splits list.splits dest!: dropWhile_head)

lemma mem_tree_sorted:
  "sorted_levels [Node ''/a/b'' '''' True [Node ''/a/b/c'' ''v'' False []],
            Node ''/a/d'' ''1'' False []]"
  by (simp add: sorted_levels_def levels_def)

lemma mem_Next_cleared_ptr_1:
  "mem_Next ''/a'' \<lparr>watch_Recursive = True, watch_AfterIndex = 0\<rparr> mem_cleared_ptr =
     (Inr event7, mem_empty\<lparr>mem_feed := [Inl (PtrClientError cleared), Inr event9]\<rparr>)"
  by (simp add: mem_Next_def mem_cleared_ptr_def mem_empty_def seen_def event7_def)

lemma mem_Next_cleared_ptr_2:
  "mem_Next ''/a'' \<lparr>watch_Recursive = True, watch_AfterIndex = 7\<rparr>
      (mem_empty\<lparr>mem_feed := [Inl (PtrClientError cleared), Inr event9]\<rparr>) =
     (Inl (PtrClientError cleared), mem_empty\<lparr>mem_feed := [Inr event9]\<rparr>)"
  by (simp add: mem_Next_def mem_empty_def seen_def)

lemma mem_Next_event9:
  "mem_Next ''/a'' \<lparr>watch_Recursive = True, watch_AfterIndex = 7\<rparr> (mem_empty\<lparr>mem_feed := [Inr event9]\<rparr>) =
     (Inr event9, mem_empty\<lparr>mem_feed := []\<rparr>)"
  by (simp add: mem_Next_def mem_empty_def seen_def event9_def)

lemma mem_Next_closed:
  "mem_Next ''/a'' \<lparr>watch_Recursive = True, watch_AfterIndex = 9\<rparr> (mem_empty\<lparr>mem_feed := []\<rparr>) =
     (Inl (OtherError ''watch closed''), mem_empty\<lparr>mem_feed := []\<rparr>)"
  by (simp add: mem_Next_def mem_empty_def)

lemma mem_Next_cleared_val_1:
  "mem_Next ''/a'' \<lparr>watch_Recursive = True, watch_AfterIndex = 0\<rparr> mem_cleared_val =
     (Inr event7, mem_empty\<lparr>mem_feed := [Inl (ValClientError cleared), Inr event9]\<rparr>)"
  by (simp add: mem_Next_def mem_cleared_val_def mem_empty_def seen_def event7_def)

lemma mem_Next_cleared_val_2:
  "mem_Next ''/a'' \<lparr>watch_Recursive = True, watch_AfterIndex = 7\<rparr>
      (mem_empty\<lparr>mem_feed := [Inl (ValClientError cleared), Inr event9]\<rparr>) =
     (Inl (ValClientError cleared), mem_empty\<lparr>mem_feed := [Inr event9]\<rparr>)"
  by (simp add: mem_Next_def mem_empty_def seen_def)

lemma cleared_code: "err_Code cleared = ErrorCodeEventIndexCleared mem_api"
  by (simp add: mem_simps cleared_def)

lemma event_fields:
  "resp_Index event7 = 7" "Key (resp_Node event7) = ''/a/x''" "Value (resp_Node event7) = ''v''"
  "resp_Index event9 = 9" "Key (resp_Node event9) = ''/a/y''" "Value (resp_Node event9) = ''w''"
  by (simp_all add: event7_def event9_def)

lemma mem_turns_ptr:
  "watchTurns 3 mem_api ''/a'' record_call 0 (world_of mem_cleared_ptr) =
     Inr (9, \<lparr>store = mem_empty\<lparr>mem_feed := []\<rparr>,
              requests = [WatchReq ''/a'' \<lparr>watch_Recursive = True, watch_AfterIndex = 0\<rparr>,
                          WatchReq ''/a'' \<lparr>watch_Recursive = True, watch_AfterIndex = 7\<rparr>,
                          WatchReq ''/a'' \<lparr>watch_Recursive = True, watch_AfterIndex = 7\<rparr>],
              user = [(''/a/x'', ''v''), (''/a/y'', ''w'')]\<rparr>)"
  by (simp add: numeral_3_eq_3 watchTurn_def send_Next_def mem_simps(4) world_of_def
      mem_Next_cleared_ptr_1 mem_Next_cleared_ptr_2 mem_Next_event9 cleared_code
      event_fields record_call_def)

lemma mem_delivered_ptr:
  "delivered 3 mem_api ''/a'' record_call 0 (world_of mem_cleared_ptr) = [event7, event9]"
  by (simp add: numeral_3_eq_3 send_Next_def mem_simps(4) world_of_def
      mem_Next_cleared_ptr_1 mem_Next_cleared_ptr_2 mem_Next_event9 cleared_code event_fields)

section \<open>Get and Set\<close>

text \<open>
  C1. For every key, Get of a key that does not exist in the store returns the empty string
  and the nil error: the store's key-not-found answer is not passed on.
\<close>

theorem Get_absent_key:
  "absent lib key (store w) \<Longrightarrow> fst (Get lib key w) = ('''', None)"
  by (cases "send_Get lib key None w")
     (use fst_send_Get [of lib key None w] in \<open>auto simp: absent_def Get_def split: sum.splits\<close>)

theorem Get_absent_key_witness:
  "absent mem_api ''/missing'' (store (world_of mem_empty))
   \<and> fst (Get mem_api ''/missing'' (world_of mem_empty)) = ('''', None)"
proof -
  have h: "absent mem_api ''/missing'' (store (world_of mem_empty))"
    by (simp add: absent_def mem_simps mem_Get_def mem_empty_def world_of_def mem_error_def)
  from h Get_absent_key [OF h] show ?thesis by simp
qed

text \<open>
  C6. For every key and value, after a Set of the key to the value that returned no error, Get
  of the key returns the value and no error. The facade hands key and value to the store
  unchanged and reads the value of the node the store answers with, so the round trip is that
  of the store (\<open>set_is_read\<close>).
\<close>

theorem Set_then_Get:
  assumes law: "set_is_read lib" and set: "Set lib key val w = (None, w')"
  shows "fst (Get lib key w') = (val, None)"
proof -
  obtain reply s' where r: "api_Set lib key val None (store w) = (reply, s')"
    by (cases "api_Set lib key val None (store w)")
  from set Set_reply [OF r] obtain resp where ok: "reply = Inr resp"
    and w': "w' = w\<lparr>store := s', requests := requests w @ [SetReq key val None]\<rparr>"
    by (cases reply) auto
  from law r ok obtain response s'' where
    g: "api_Get lib key None s' = (Inr response, s'')" and v: "Value (resp_Node response) = val"
    unfolding set_is_read_def by blast
  from g w' have "api_Get lib key None (store w') = (Inr response, s'')" by simp
  from Get_reply [OF this] v show ?thesis by simp
qed

theorem Set_then_Get_witness:
  "set_is_read mem_api
   \<and> fst (Set mem_api ''/a/x'' ''v'' (world_of mem_empty)) = None
   \<and> fst (Get mem_api ''/a/x'' (snd (Set mem_api ''/a/x'' ''v'' (world_of mem_empty)))) = (''v'', None)"
proof -
  have n: "fst (Set mem_api ''/a/x'' ''v'' (world_of mem_empty)) = None"
    by (simp add: Set_def send_Set_def mem_simps mem_Set_def mem_write_def mem_empty_def world_of_def)
  then have s: "Set mem_api ''/a/x'' ''v'' (world_of mem_empty)
      = (None, snd (Set mem_api ''/a/x'' ''v'' (world_of mem_empty)))"
    by (simp add: prod_eq_iff)
  from mem_set_is_read n Set_then_Get [OF mem_set_is_read s] show ?thesis by blast
qed

section \<open>Del and DelDir\<close>

text \<open>
  C7. Del of an absent key and DelDir of an absent directory return the nil error: the
  store's key-not-found answer to the delete is turned into success. Every other error of the
  delete is returned to the caller as it is.
\<close>

theorem Del_DelDir_errors:
  "(fst (api_Delete lib key None (store w)) = Inl err \<longrightarrow>
      fst (Del lib key w) = (if IsKeyNotFound lib err then None else Some err))
   \<and> (fst (api_Delete lib key (Some \<lparr>del_Dir = True, del_Recursive = True\<rparr>) (store w)) = Inl err \<longrightarrow>
      fst (DelDir lib key w) = (if IsKeyNotFound lib err then None else Some err))"
proof (intro conjI impI)
  assume a: "fst (api_Delete lib key None (store w)) = Inl err"
  obtain reply s' where r: "api_Delete lib key None (store w) = (reply, s')"
    by (cases "api_Delete lib key None (store w)")
  with a show "fst (Del lib key w) = (if IsKeyNotFound lib err then None else Some err)"
    by (simp add: Del_reply [OF r])
next
  let ?opts = "Some \<lparr>del_Dir = True, del_Recursive = True\<rparr>"
  assume a: "fst (api_Delete lib key ?opts (store w)) = Inl err"
  obtain reply s' where r: "api_Delete lib key ?opts (store w) = (reply, s')"
    by (cases "api_Delete lib key ?opts (store w)")
  with a show "fst (DelDir lib key w) = (if IsKeyNotFound lib err then None else Some err)"
    by (simp add: DelDir_reply [OF r])
qed

theorem Del_DelDir_errors_witness:
  "fst (Del mem_api ''/missing'' (world_of mem_empty)) = None
   \<and> fst (DelDir mem_api ''/missing'' (world_of mem_empty)) = None
   \<and> fst (Del mem_api ''/a'' (world_of mem_down)) = Some (OtherError ''connection refused'')
   \<and> fst (DelDir mem_api ''/a'' (world_of mem_down)) = Some (OtherError ''connection refused'')"
  using Del_DelDir_errors [of mem_api "''/missing''" "world_of mem_empty"
      "ValClientError \<lparr>err_Code = 100, err_Message = ''Key not found'', err_Cause = ''/missing'',
        err_Index = 0\<rparr>"]
    Del_DelDir_errors [of mem_api "''/a''" "world_of mem_down" "OtherError ''connection refused''"]
  by (simp add: mem_simps world_of_def mem_Delete_missing mem_Delete_down)

section \<open>UpdateDirWithTTL\<close>

text \<open>
  C8. UpdateDirWithTTL needs the directory to be there already. It sends one Set of the key
  with the time to live, \<open>Dir\<close> and \<open>PrevExist\<close>, and returns the store's answer as it is,
  key-not-found included: with a store that honours \<open>PrevExist\<close>, the call on an absent path
  returns an error. Set sends its Set with no options, hence with no such precondition.
\<close>

theorem UpdateDirWithTTL_must_exist:
  "UpdateDirWithTTL lib key ttl w =
     (error_of (fst (api_Set lib key ''''
         (Some \<lparr>set_TTL = ttl, set_Dir = True, set_PrevExist = PrevExist\<rparr>) (store w))),
      w\<lparr>store := snd (api_Set lib key ''''
         (Some \<lparr>set_TTL = ttl, set_Dir = True, set_PrevExist = PrevExist\<rparr>) (store w)),
        requests := requests w @
         [SetReq key '''' (Some \<lparr>set_TTL = ttl, set_Dir = True, set_PrevExist = PrevExist\<rparr>)]\<rparr>)
   \<and> (honours_PrevExist lib \<and> absent lib key (store w) \<longrightarrow>
        fst (UpdateDirWithTTL lib key ttl w) \<noteq> None)
   \<and> requests (snd (Set lib key val w)) = requests w @ [SetReq key val None]"
proof (intro conjI impI)
  let ?opts = "Some \<lparr>set_TTL = ttl, set_Dir = True, set_PrevExist = PrevExist\<rparr>"
  obtain reply s' where r: "api_Set lib key '''' ?opts (store w) = (reply, s')"
    by (cases "api_Set lib key '''' ?opts (store w)")
  from UpdateDirWithTTL_reply [OF r] r
  show u: "UpdateDirWithTTL lib key ttl w =
     (error_of (fst (api_Set lib key '''' ?opts (store w))),
      w\<lparr>store := snd (api_Set lib key '''' ?opts (store w)),
        requests := requests w @ [SetReq key '''' ?opts]\<rparr>)"
    by (simp add: error_of_def)
  assume "honours_PrevExist lib \<and> absent lib key (store w)"
  then have "isl (fst (api_Set lib key '''' ?opts (store w)))"
    unfolding honours_PrevExist_def by simp
  with u show "fst (UpdateDirWithTTL lib key ttl w) \<noteq> None"
    by (cases "fst (api_Set lib key '''' ?opts (store w))") (simp_all add: error_of_def)
next
  obtain reply s' where r: "api_Set lib key val None (store w) = (reply, s')"
    by (cases "api_Set lib key val None (store w)")
  from Set_reply [OF r] show "requests (snd (Set lib key val w)) = requests w @ [SetReq key val None]"
    by simp
qed

theorem UpdateDirWithTTL_must_exist_witness:
  "honours_PrevExist mem_api \<and> absent mem_api ''/d'' (store (world_of mem_empty))
   \<and> fst (UpdateDirWithTTL mem_api ''/d'' 30 (world_of mem_empty)) =
       Some (ValClientError \<lparr>err_Code = 100, err_Message = ''Key not found'', err_Cause = ''/d'',
         err_Index = 0\<rparr>)
   \<and> fst (UpdateDirWithTTL mem_api ''/d'' 30 (world_of mem_dir)) = None
   \<and> fst (Set mem_api ''/d'' ''v'' (world_of mem_empty)) = None"
proof -
  note u1 = UpdateDirWithTTL_must_exist [of mem_api "''/d''" 30 "world_of mem_empty" "''v''"]
  note u2 = UpdateDirWithTTL_must_exist [of mem_api "''/d''" 30 "world_of mem_dir" "''v''"]
  from u1 mem_honours_PrevExist mem_absent_d
  have "fst (UpdateDirWithTTL mem_api ''/d'' 30 (world_of mem_empty)) \<noteq> None" by blast
  from u1 have a: "fst (UpdateDirWithTTL mem_api ''/d'' 30 (world_of mem_empty)) =
       Some (ValClientError \<lparr>err_Code = 100, err_Message = ''Key not found'', err_Cause = ''/d'',
         err_Index = 0\<rparr>)"
    by (simp add: mem_simps world_of_def mem_Set_update_absent error_of_def)
  from u2 have b: "fst (UpdateDirWithTTL mem_api ''/d'' 30 (world_of mem_dir)) = None"
    by (simp add: mem_simps world_of_def mem_Set_update_dir error_of_def)
  have c: "fst (Set mem_api ''/d'' ''v'' (world_of mem_empty)) = None"
    by (simp add: Set_def send_Set_def mem_simps mem_Set_def mem_write_def mem_empty_def world_of_def)
  from mem_honours_PrevExist mem_absent_d a b c show ?thesis by blast
qed

section \<open>Ls and LsRecursive\<close>

lemma nodesToStringSlice_preorder: "nodesToStringSlice nodes = preorder_forest nodes"
  by (induction nodes rule: nodesToStringSlice.induct) (simp_all add: preorder_forest_def)

lemma levels_Cons:
  "set (levels (Node key val dir nodes # rest)) =
     insert (key # map Key rest) (set (levels nodes) \<union> set (concat (map levels_below rest)))"
  by (auto simp: levels_def)

lemma levels_rest: "set (concat (map levels_below rest)) \<subseteq> set (levels rest)"
  by (auto simp: levels_def)

lemma level_in_order:
  "l \<in> set (levels nodes) \<Longrightarrow> subseq l (nodesToStringSlice nodes)"
proof (induction nodes arbitrary: l rule: nodesToStringSlice.induct)
  case 1
  then show ?case by (simp add: levels_def)
next
  case (2 key val dir nodes rest)
  from "2.prems" consider
      (roots) "l = key # map Key rest"
    | (below) "l \<in> set (levels nodes)"
    | (right) "l \<in> set (concat (map levels_below rest))"
    unfolding levels_Cons by blast
  then show ?case
  proof cases
    case roots
    have "map Key rest \<in> set (levels rest)" by (simp add: levels_def)
    then have "subseq (map Key rest) (nodesToStringSlice rest)" by (rule "2.IH"(2))
    then have "subseq (map Key rest) (nodesToStringSlice nodes @ nodesToStringSlice rest)"
      by (rule list_emb_append2)
    with roots show ?thesis by simp
  next
    case below
    then have "subseq l (nodesToStringSlice nodes)" by (rule "2.IH"(1))
    then have "subseq l (nodesToStringSlice nodes @ nodesToStringSlice rest)"
      by (rule list_emb_prefix)
    then have "subseq l (key # nodesToStringSlice nodes @ nodesToStringSlice rest)"
      by (rule list_emb_Cons)
    then show ?thesis by simp
  next
    case right
    with levels_rest have "l \<in> set (levels rest)" by blast
    then have "subseq l (nodesToStringSlice rest)" by (rule "2.IH"(2))
    then have "subseq l (nodesToStringSlice nodes @ nodesToStringSlice rest)"
      by (rule list_emb_append2)
    then have "subseq l (key # nodesToStringSlice nodes @ nodesToStringSlice rest)"
      by (rule list_emb_Cons)
    then show ?thesis by simp
  qed
qed

text \<open>
  C4. For every node tree the store answers with, LsRecursive returns the keys of all the
  descendants of the directory in depth-first pre-order: the key of a node before the keys of
  its children, the subtree of a directory in full before the directory's next sibling
  (\<open>preorder_forest\<close>). Every group of siblings is in the result in the order in which the
  store gave it, hence sorted where the store has sorted it, as the request asks with
  \<open>Sort\<close>. When the directory is absent the result is the empty list and the nil error.
\<close>

theorem LsRecursive_preorder:
  "(fst (api_Get lib directory (Some \<lparr>get_Sort = True, get_Recursive = True\<rparr>) (store w)) = Inr response
      \<longrightarrow> fst (LsRecursive lib directory w) = (preorder_forest (Nodes (resp_Node response)), None)
        \<and> (\<forall>l \<in> set (levels (Nodes (resp_Node response))).
              subseq l (fst (fst (LsRecursive lib directory w)))
              \<and> (sorted_levels (Nodes (resp_Node response)) \<longrightarrow> sorted l)))
   \<and> (fst (api_Get lib directory (Some \<lparr>get_Sort = True, get_Recursive = True\<rparr>) (store w)) = Inl err
        \<and> IsKeyNotFound lib err
      \<longrightarrow> fst (LsRecursive lib directory w) = ([], None))"
proof -
  let ?opts = "Some \<lparr>get_Sort = True, get_Recursive = True\<rparr>"
  obtain reply s' where g: "api_Get lib directory ?opts (store w) = (reply, s')"
    by (cases "api_Get lib directory ?opts (store w)")
  note ls = LsRecursive_reply [OF g]
  have listed: "fst (LsRecursive lib directory w) = (preorder_forest (Nodes (resp_Node response)), None)"
    if "reply = Inr response"
    using that ls by (simp add: nodesToStringSlice_preorder)
  have order: "subseq l (fst (fst (LsRecursive lib directory w)))"
    if "reply = Inr response" and "l \<in> set (levels (Nodes (resp_Node response)))" for l
    using that ls level_in_order [of l "Nodes (resp_Node response)"] by simp
  have sorted: "sorted l"
    if "sorted_levels (Nodes (resp_Node response))" and "l \<in> set (levels (Nodes (resp_Node response)))"
    for l
    using that by (simp add: sorted_levels_def list_all_iff)
  have none: "fst (LsRecursive lib directory w) = ([], None)"
    if "reply = Inl err" and "IsKeyNotFound lib err"
    using that ls by simp
  from g listed order sorted none show ?thesis by simp
qed

theorem LsRecursive_preorder_witness:
  "fst (LsRecursive mem_api ''/a'' (world_of mem_tree)) = ([''/a/b'', ''/a/b/c'', ''/a/d''], None)
   \<and> subseq [''/a/b'', ''/a/d''] (fst (fst (LsRecursive mem_api ''/a'' (world_of mem_tree))))
   \<and> sorted [''/a/b'', ''/a/d'']
   \<and> fst (LsRecursive mem_api ''/missing'' (world_of mem_empty)) = ([], None)"
proof -
  let ?kids = "[Node ''/a/b'' '''' True [Node ''/a/b/c'' ''v'' False []], Node ''/a/d'' ''1'' False []]"
  define R where "R = \<lparr>resp_Node = Node ''/a'' '''' True ?kids, resp_Index = 2\<rparr>"
  have kids: "Nodes (resp_Node R) = ?kids" by (simp add: R_def)
  note t = LsRecursive_preorder [of mem_api "''/a''" "world_of mem_tree" R]
  note m = LsRecursive_preorder [of mem_api "''/missing''" "world_of mem_empty" _
      "ValClientError \<lparr>err_Code = 100, err_Message = ''Key not found'', err_Cause = ''/missing'',
        err_Index = 0\<rparr>"]
  have g: "fst (api_Get mem_api ''/a'' (Some \<lparr>get_Sort = True, get_Recursive = True\<rparr>)
      (store (world_of mem_tree))) = Inr R"
    by (simp add: mem_simps world_of_def mem_Get_tree R_def)
  have l: "[''/a/b'', ''/a/d''] \<in> set (levels ?kids)" by (simp add: levels_def)
  from t g have "fst (LsRecursive mem_api ''/a'' (world_of mem_tree))
        = (preorder_forest (Nodes (resp_Node R)), None)
      \<and> (\<forall>l \<in> set (levels (Nodes (resp_Node R))).
              subseq l (fst (fst (LsRecursive mem_api ''/a'' (world_of mem_tree))))
              \<and> (sorted_levels (Nodes (resp_Node R)) \<longrightarrow> sorted l))"
    by blast
  then have a: "fst (LsRecursive mem_api ''/a'' (world_of mem_tree)) = (preorder_forest ?kids, None)"
    and all: "\<forall>l \<in> set (levels ?kids).
              subseq l (fst (fst (LsRecursive mem_api ''/a'' (world_of mem_tree))))
              \<and> (sorted_levels ?kids \<longrightarrow> sorted l)"
    unfolding kids by blast+
  from all l mem_tree_sorted
  have b: "subseq [''/a/b'', ''/a/d''] (fst (fst (LsRecursive mem_api ''/a'' (world_of mem_tree))))"
    and c: "sorted [''/a/b'', ''/a/d'']"
    by blast+
  from a have a': "fst (LsRecursive mem_api ''/a'' (world_of mem_tree))
      = ([''/a/b'', ''/a/b/c'', ''/a/d''], None)"
    by (simp add: preorder_forest_def)
  from m have d: "fst (LsRecursive mem_api ''/missing'' (world_of mem_empty)) = ([], None)"
    by (simp add: mem_simps world_of_def mem_Get_missing)
  from a' b c d show ?thesis by blast
qed

text \<open>
  C10. When a read returns an error that is not nil, the result beside it is the zero of its
  type: Get returns the empty string, Ls and LsRecursive return the empty list.
\<close>

theorem read_error_zero_result:
  "(snd (fst (Get lib key w)) \<noteq> None \<longrightarrow> fst (fst (Get lib key w)) = '''')
   \<and> (snd (fst (Ls lib directory w)) \<noteq> None \<longrightarrow> fst (fst (Ls lib directory w)) = [])
   \<and> (snd (fst (LsRecursive lib directory w)) \<noteq> None \<longrightarrow> fst (fst (LsRecursive lib directory w)) = [])"
proof (intro conjI)
  obtain reply s' where "api_Get lib key None (store w) = (reply, s')"
    by (cases "api_Get lib key None (store w)")
  then show "snd (fst (Get lib key w)) \<noteq> None \<longrightarrow> fst (fst (Get lib key w)) = ''''"
    by (simp add: Get_reply split: sum.splits)
next
  let ?opts = "Some \<lparr>get_Sort = True, get_Recursive = False\<rparr>"
  obtain reply s' where "api_Get lib directory ?opts (store w) = (reply, s')"
    by (cases "api_Get lib directory ?opts (store w)")
  then show "snd (fst (Ls lib directory w)) \<noteq> None \<longrightarrow> fst (fst (Ls lib directory w)) = []"
    by (simp add: Ls_reply split: sum.splits)
next
  let ?opts = "Some \<lparr>get_Sort = True, get_Recursive = True\<rparr>"
  obtain reply s' where "api_Get lib directory ?opts (store w) = (reply, s')"
    by (cases "api_Get lib directory ?opts (store w)")
  then show "snd (fst (LsRecursive lib directory w)) \<noteq> None \<longrightarrow>
      fst (fst (LsRecursive lib directory w)) = []"
    by (simp add: LsRecursive_reply split: sum.splits)
qed

theorem read_error_zero_result_witness:
  "fst (Get mem_api ''/a'' (world_of mem_down)) = ('''', Some (OtherError ''connection refused''))
   \<and> fst (Ls mem_api ''/a'' (world_of mem_down)) = ([], Some (OtherError ''connection refused''))
   \<and> fst (LsRecursive mem_api ''/a'' (world_of mem_down)) = ([], Some (OtherError ''connection refused''))"
proof -
  have g: "snd (fst (Get mem_api ''/a'' (world_of mem_down))) = Some (OtherError ''connection refused'')"
    by (simp add: Get_def send_Get_def mem_simps world_of_def mem_Get_down)
  have l: "snd (fst (Ls mem_api ''/a'' (world_of mem_down))) = Some (OtherError ''connection refused'')"
    by (simp add: Ls_def send_Get_def mem_simps world_of_def mem_Get_down)
  have r: "snd (fst (LsRecursive mem_api ''/a'' (world_of mem_down))) = Some (OtherError ''connection refused'')"
    by (simp add: LsRecursive_def send_Get_def mem_simps world_of_def mem_Get_down)
  from g l r read_error_zero_result [of mem_api "''/a''" "world_of mem_down" "''/a''"]
  show ?thesis by (simp add: prod_eq_iff)
qed

section \<open>MkDir\<close>

lemma MkDir_again:
  assumes law: "dir_is_read lib" and a: "absent lib directory (store w)"
    and ok: "fst (MkDir lib directory w) = None"
  shows "MkDir lib directory (snd (MkDir lib directory w)) =
     (None, (snd (MkDir lib directory w))
        \<lparr>store := snd (api_Get lib directory None (store (snd (MkDir lib directory w)))),
         requests := requests (snd (MkDir lib directory w)) @ [GetReq directory None]\<rparr>)"
proof -
  from a obtain err s1 where g: "api_Get lib directory None (store w) = (Inl err, s1)"
    and nf: "IsKeyNotFound lib err" by (rule absentE)
  obtain reply s2 where s: "api_Set lib directory '''' mkdir_opts s1 = (reply, s2)"
    by (cases "api_Set lib directory '''' mkdir_opts s1")
  note m = MkDir_absent [OF g nf s]
  with ok obtain r where r: "reply = Inr r" by (cases reply) (auto simp: error_of_def)
  from law s r obtain response s3 where
    g2: "api_Get lib directory None s2 = (Inr response, s3)" and d: "Dir (resp_Node response)"
    unfolding dir_is_read_def mkdir_opts_def by fastforce
  from g2 m have "fst (api_Get lib directory None (store (snd (MkDir lib directory w)))) = Inr response"
    by simp
  from MkDir_existing [OF this] d show ?thesis by simp
qed

lemma MkDir_existing_again:
  assumes law: "get_reads_only lib"
    and g: "fst (api_Get lib directory None (store w)) = Inr results" and d: "Dir (resp_Node results)"
  shows "fst (MkDir lib directory (snd (MkDir lib directory w))) = None"
proof -
  from law have same: "snd (api_Get lib directory None (store w)) = store w"
    unfolding get_reads_only_def by simp
  from MkDir_existing [OF g] d same
  have "store (snd (MkDir lib directory w)) = store w" by simp
  with g have "fst (api_Get lib directory None (store (snd (MkDir lib directory w)))) = Inr results"
    by simp
  from MkDir_existing [OF this] d show ?thesis by simp
qed

text \<open>
  C5. MkDir of a path that is absent makes the path an empty directory: it sends the Set of
  the path with \<open>Dir\<close> and returns what the store answers to it, nil when the store made
  the directory. MkDir of a path that is a directory already returns nil and sends nothing but
  the Get that found it, so that two calls in a row both return nil, whether the first call
  made the directory or found it. MkDir of a path that is a leaf returns the error
  "Refusing to overwrite key/value with a directory" with the path, and sends nothing but
  that Get: the leaf is left as it was.
\<close>

theorem MkDir_policy:
  "(absent lib directory (store w) \<longrightarrow>
      fst (MkDir lib directory w)
        = error_of (fst (api_Set lib directory '''' mkdir_opts (snd (api_Get lib directory None (store w)))))
      \<and> requests (snd (MkDir lib directory w))
        = requests w @ [GetReq directory None, SetReq directory '''' mkdir_opts])
   \<and> (fst (api_Get lib directory None (store w)) = Inr results \<longrightarrow>
      MkDir lib directory w =
        (if Dir (resp_Node results) then None else Some (refusing directory),
         w\<lparr>store := snd (api_Get lib directory None (store w)),
           requests := requests w @ [GetReq directory None]\<rparr>))
   \<and> (get_reads_only lib \<and> fst (api_Get lib directory None (store w)) = Inr results \<longrightarrow>
      store (snd (MkDir lib directory w)) = store w
      \<and> (Dir (resp_Node results) \<longrightarrow> fst (MkDir lib directory (snd (MkDir lib directory w))) = None))
   \<and> (dir_is_read lib \<and> absent lib directory (store w) \<and> fst (MkDir lib directory w) = None \<longrightarrow>
      fst (MkDir lib directory (snd (MkDir lib directory w))) = None
      \<and> requests (snd (MkDir lib directory (snd (MkDir lib directory w))))
        = requests (snd (MkDir lib directory w)) @ [GetReq directory None])"
proof (intro conjI impI)
  assume "absent lib directory (store w)"
  from MkDir_creates [OF this]
  show "fst (MkDir lib directory w)
        = error_of (fst (api_Set lib directory '''' mkdir_opts (snd (api_Get lib directory None (store w)))))"
    and "requests (snd (MkDir lib directory w))
        = requests w @ [GetReq directory None, SetReq directory '''' mkdir_opts]"
    by simp_all
next
  assume "fst (api_Get lib directory None (store w)) = Inr results"
  then show "MkDir lib directory w =
        (if Dir (resp_Node results) then None else Some (refusing directory),
         w\<lparr>store := snd (api_Get lib directory None (store w)),
           requests := requests w @ [GetReq directory None]\<rparr>)"
    by (rule MkDir_existing)
next
  assume a: "get_reads_only lib \<and> fst (api_Get lib directory None (store w)) = Inr results"
  then have "snd (api_Get lib directory None (store w)) = store w"
    unfolding get_reads_only_def by simp
  with a MkDir_existing [of lib directory w results]
  show "store (snd (MkDir lib directory w)) = store w" by simp
next
  assume a: "get_reads_only lib \<and> fst (api_Get lib directory None (store w)) = Inr results"
    and d: "Dir (resp_Node results)"
  with MkDir_existing_again [of lib directory w results]
  show "fst (MkDir lib directory (snd (MkDir lib directory w))) = None" by simp
next
  assume a: "dir_is_read lib \<and> absent lib directory (store w) \<and> fst (MkDir lib directory w) = None"
  with MkDir_again [of lib directory w]
  show "fst (MkDir lib directory (snd (MkDir lib directory w))) = None"
    and "requests (snd (MkDir lib directory (snd (MkDir lib directory w))))
        = requests (snd (MkDir lib directory w)) @ [GetReq directory None]"
    by simp_all
qed

theorem MkDir_policy_witness:
  "fst (MkDir mem_api ''/d'' (world_of mem_empty)) = None
   \<and> requests (snd (MkDir mem_api ''/d'' (world_of mem_empty)))
       = [GetReq ''/d'' None, SetReq ''/d'' '''' mkdir_opts]
   \<and> fst (MkDir mem_api ''/d'' (snd (MkDir mem_api ''/d'' (world_of mem_empty)))) = None
   \<and> requests (snd (MkDir mem_api ''/d'' (snd (MkDir mem_api ''/d'' (world_of mem_empty)))))
       = [GetReq ''/d'' None, SetReq ''/d'' '''' mkdir_opts, GetReq ''/d'' None]
   \<and> MkDir mem_api ''/k'' (world_of mem_leaf)
       = (Some (OtherError ''Refusing to overwrite key/value with a directory: /k''),
          \<lparr>store = mem_leaf, requests = [GetReq ''/k'' None], user = []\<rparr>)"
proof -
  note p1 = MkDir_policy [of mem_api "''/d''" "world_of mem_empty"]
  note p2 = MkDir_policy [of mem_api "''/k''" "world_of mem_leaf"
      "\<lparr>resp_Node = Node ''/k'' ''v'' False [], resp_Index = 1\<rparr>"]
  have r0: "requests (world_of mem_empty) = []" by (simp add: world_of_def)
  from p1 mem_absent_d mem_MkDir_d mem_dir_is_read r0
  have a: "fst (MkDir mem_api ''/d'' (world_of mem_empty)) = None
   \<and> requests (snd (MkDir mem_api ''/d'' (world_of mem_empty)))
       = [GetReq ''/d'' None, SetReq ''/d'' '''' mkdir_opts]
   \<and> fst (MkDir mem_api ''/d'' (snd (MkDir mem_api ''/d'' (world_of mem_empty)))) = None
   \<and> requests (snd (MkDir mem_api ''/d'' (snd (MkDir mem_api ''/d'' (world_of mem_empty)))))
       = [GetReq ''/d'' None, SetReq ''/d'' '''' mkdir_opts, GetReq ''/d'' None]"
    by simp
  from p2 have b: "MkDir mem_api ''/k'' (world_of mem_leaf)
       = (Some (OtherError ''Refusing to overwrite key/value with a directory: /k''),
          \<lparr>store = mem_leaf, requests = [GetReq ''/k'' None], user = []\<rparr>)"
    by (simp add: mem_simps world_of_def mem_Get_leaf refusing_def)
  from a b show ?thesis by blast
qed

section \<open>Requests per call\<close>

text \<open>
  C9, as stated, fails: MkDir of an absent path sends two requests, the Get that finds the
  path absent and the Set that makes the directory.
\<close>

theorem MkDir_sends_two_requests:
  "requests (snd (MkDir mem_api ''/d'' (world_of mem_empty)))
     = [GetReq ''/d'' None,
        SetReq ''/d'' '''' (Some \<lparr>set_TTL = 0, set_Dir = True, set_PrevExist = PrevIgnore\<rparr>)]
   \<and> length (requests (snd (MkDir mem_api ''/d'' (world_of mem_empty))))
     \<noteq> length (requests (world_of mem_empty)) + 1"
  by (simp add: MkDir_def send_Get_def send_Set_def mem_simps mem_Get_def mem_Set_def mem_write_def
      mem_empty_def world_of_def mem_error_def)

text \<open>
  C9, amended. Del, DelDir, Get, Set, UpdateDirWithTTL, Ls and LsRecursive send exactly one
  request per call. MkDir sends one request, a Get, when the path is there or the Get fails
  with an error other than key-not-found, and two, that Get and then a Set, when the path is
  absent.
\<close>

theorem requests_per_call:
  "requests (snd (Del lib key w)) = requests w @ [DeleteReq key None]
   \<and> requests (snd (DelDir lib key w))
       = requests w @ [DeleteReq key (Some \<lparr>del_Dir = True, del_Recursive = True\<rparr>)]
   \<and> requests (snd (Get lib key w)) = requests w @ [GetReq key None]
   \<and> requests (snd (Set lib key val w)) = requests w @ [SetReq key val None]
   \<and> requests (snd (UpdateDirWithTTL lib key ttl w))
       = requests w @ [SetReq key '''' (Some \<lparr>set_TTL = ttl, set_Dir = True, set_PrevExist = PrevExist\<rparr>)]
   \<and> requests (snd (Ls lib key w))
       = requests w @ [GetReq key (Some \<lparr>get_Sort = True, get_Recursive = False\<rparr>)]
   \<and> requests (snd (LsRecursive lib key w))
       = requests w @ [GetReq key (Some \<lparr>get_Sort = True, get_Recursive = True\<rparr>)]
   \<and> requests (snd (MkDir lib key w))
       = requests w @ (if absent lib key (store w)
                       then [GetReq key None, SetReq key '''' mkdir_opts]
                       else [GetReq key None])"
proof (intro conjI)
  obtain r s' where "api_Delete lib key None (store w) = (r, s')"
    by (cases "api_Delete lib key None (store w)")
  from Del_reply [OF this] show "requests (snd (Del lib key w)) = requests w @ [DeleteReq key None]"
    by simp
next
  let ?o = "Some \<lparr>del_Dir = True, del_Recursive = True\<rparr>"
  obtain r s' where "api_Delete lib key ?o (store w) = (r, s')"
    by (cases "api_Delete lib key ?o (store w)")
  from DelDir_reply [OF this]
  show "requests (snd (DelDir lib key w)) = requests w @ [DeleteReq key ?o]" by simp
next
  obtain r s' where "api_Get lib key None (store w) = (r, s')"
    by (cases "api_Get lib key None (store w)")
  from Get_reply [OF this] show "requests (snd (Get lib key w)) = requests w @ [GetReq key None]"
    by simp
next
  obtain r s' where "api_Set lib key val None (store w) = (r, s')"
    by (cases "api_Set lib key val None (store w)")
  from Set_reply [OF this] show "requests (snd (Set lib key val w)) = requests w @ [SetReq key val None]"
    by simp
next
  let ?o = "Some \<lparr>set_TTL = ttl, set_Dir = True, set_PrevExist = PrevExist\<rparr>"
  obtain r s' where "api_Set lib key '''' ?o (store w) = (r, s')"
    by (cases "api_Set lib key '''' ?o (store w)")
  from UpdateDirWithTTL_reply [OF this]
  show "requests (snd (UpdateDirWithTTL lib key ttl w)) = requests w @ [SetReq key '''' ?o]" by simp
next
  let ?o = "Some \<lparr>get_Sort = True, get_Recursive = False\<rparr>"
  obtain r s' where "api_Get lib key ?o (store w) = (r, s')"
    by (cases "api_Get lib key ?o (store w)")
  from Ls_reply [OF this] show "requests (snd (Ls lib key w)) = requests w @ [GetReq key ?o]" by simp
next
  let ?o = "Some \<lparr>get_Sort = True, get_Recursive = True\<rparr>"
  obtain r s' where "api_Get lib key ?o (store w) = (r, s')"
    by (cases "api_Get lib key ?o (store w)")
  from LsRecursive_reply [OF this]
  show "requests (snd (LsRecursive lib key w)) = requests w @ [GetReq key ?o]" by simp
next
  show "requests (snd (MkDir lib key w))
       = requests w @ (if absent lib key (store w)
                       then [GetReq key None, SetReq key '''' mkdir_opts]
                       else [GetReq key None])"
    by (rule MkDir_requests)
qed

theorem requests_per_call_witness:
  "requests (snd (MkDir mem_api ''/k'' (world_of mem_leaf))) = [GetReq ''/k'' None]
   \<and> requests (snd (MkDir mem_api ''/d'' (world_of mem_empty)))
       = [GetReq ''/d'' None, SetReq ''/d'' '''' mkdir_opts]
   \<and> requests (snd (Get mem_api ''/k'' (world_of mem_leaf))) = [GetReq ''/k'' None]"
proof -
  have a: "\<not> absent mem_api ''/k'' (store (world_of mem_leaf))"
    by (simp add: absent_def mem_simps world_of_def mem_Get_leaf)
  from a mem_absent_d
    requests_per_call [of mem_api "''/k''" "world_of mem_leaf" "''v''" 0]
    requests_per_call [of mem_api "''/d''" "world_of mem_empty" "''v''" 0]
  show ?thesis by (simp add: world_of_def)
qed

section \<open>WatchRecursive\<close>

lemma shouldIgnoreError_iff:
  "shouldIgnoreError lib err \<longleftrightarrow>
     (\<exists>e. err = PtrClientError e \<and> err_Code e = ErrorCodeEventIndexCleared lib)"
  by (cases err) simp_all

lemma value_error_not_ignored: "\<not> shouldIgnoreError lib (ValClientError e)"
  by simp

lemma watchTurn_reply:
  assumes "watcher_Next lib directory \<lparr>watch_Recursive = True, watch_AfterIndex = afterIndex\<rparr> (store w)
      = (reply, s')"
  shows "watchTurn lib directory onChange afterIndex w =
     (case reply of
        Inl err \<Rightarrow>
          if shouldIgnoreError lib err
          then Inr (afterIndex,
                 w\<lparr>store := s', requests := requests w @
                    [WatchReq directory \<lparr>watch_Recursive = True, watch_AfterIndex = afterIndex\<rparr>]\<rparr>)
          else Inl (Some err,
                 w\<lparr>store := s', requests := requests w @
                    [WatchReq directory \<lparr>watch_Recursive = True, watch_AfterIndex = afterIndex\<rparr>]\<rparr>)
      | Inr response \<Rightarrow>
          Inr (resp_Index response,
               w\<lparr>store := s', requests := requests w @
                    [WatchReq directory \<lparr>watch_Recursive = True, watch_AfterIndex = afterIndex\<rparr>],
                 user := deliver onChange (user w) response\<rparr>))"
  using assms by (simp add: watchTurn_def send_Next_eq deliver_def split: sum.splits)

lemma watchTurn_requests:
  "requests (turn_world (watchTurn lib directory onChange afterIndex w)) =
     requests w @ [WatchReq directory \<lparr>watch_Recursive = True, watch_AfterIndex = afterIndex\<rparr>]"
proof -
  obtain reply s' where
    "watcher_Next lib directory \<lparr>watch_Recursive = True, watch_AfterIndex = afterIndex\<rparr> (store w)
      = (reply, s')"
    by (cases "watcher_Next lib directory \<lparr>watch_Recursive = True, watch_AfterIndex = afterIndex\<rparr> (store w)")
  from watchTurn_reply [OF this] show ?thesis
    by (simp add: turn_world_def split: sum.splits)
qed

lemma watchTurn_returns:
  "watchTurn lib directory onChange afterIndex w = Inl (r, w') \<Longrightarrow>
     \<exists>err. r = Some err \<and> \<not> shouldIgnoreError lib err
       \<and> fst (watcher_Next lib directory \<lparr>watch_Recursive = True, watch_AfterIndex = afterIndex\<rparr>
              (store w)) = Inl err"
  by (auto simp: watchTurn_def send_Next_def split: prod.splits sum.splits if_splits)

lemma watchTurns_loop:
  "watchTurns n lib directory onChange afterIndex w = Inl r \<Longrightarrow>
     watchLoop lib directory onChange afterIndex w = Some r"
proof (induction n arbitrary: afterIndex w)
  case 0
  then show ?case by simp
next
  case (Suc n)
  show ?case
  proof (cases "watchTurn lib directory onChange afterIndex w")
    case (Inl result)
    with Suc.prems show ?thesis by (subst watchLoop.simps) simp
  next
    case (Inr continue)
    obtain a' w' where c: "continue = (a', w')" by (cases continue)
    with Inr Suc.prems have "watchTurns n lib directory onChange a' w' = Inl r" by simp
    then have "watchLoop lib directory onChange a' w' = Some r" by (rule Suc.IH)
    with Inr c show ?thesis by (subst watchLoop.simps) simp
  qed
qed

lemma watchLoop_turns:
  assumes "watchLoop lib directory onChange afterIndex w = Some r"
  shows "\<exists>n. watchTurns n lib directory onChange afterIndex w = Inl r"
  using assms
proof (induct rule: watchLoop.raw_induct [rotated 1, consumes 1])
  case (1 loop lib directory onChange afterIndex w r)
  show ?case
  proof (cases "watchTurn lib directory onChange afterIndex w")
    case (Inl result)
    with "1"(2) have "watchTurns (Suc 0) lib directory onChange afterIndex w = Inl r" by simp
    then show ?thesis by blast
  next
    case (Inr continue)
    obtain a' w' where c: "continue = (a', w')" by (cases continue)
    with Inr "1"(2) have "loop lib directory onChange a' w' = Some r" by simp
    then obtain m where "watchTurns m lib directory onChange a' w' = Inl r"
      using "1"(1) by blast
    with Inr c have "watchTurns (Suc m) lib directory onChange afterIndex w = Inl r" by simp
    then show ?thesis by blast
  qed
qed

lemma WatchRecursive_turns:
  "WatchRecursive lib directory onChange w = Some r \<longleftrightarrow>
     (\<exists>n. watchTurns n lib directory onChange 0 w = Inl r)"
  unfolding WatchRecursive_def using watchLoop_turns watchTurns_loop by blast

lemma watchLoop_continues:
  "watchTurns n lib directory onChange afterIndex w = Inr (a, w') \<Longrightarrow>
     watchLoop lib directory onChange afterIndex w = watchLoop lib directory onChange a w'"
proof (induction n arbitrary: afterIndex w)
  case 0
  then show ?case by simp
next
  case (Suc n)
  show ?case
  proof (cases "watchTurn lib directory onChange afterIndex w")
    case (Inl result)
    with Suc.prems show ?thesis by simp
  next
    case (Inr continue)
    obtain a1 w1 where c: "continue = (a1, w1)" by (cases continue)
    with Inr Suc.prems have "watchTurns n lib directory onChange a1 w1 = Inr (a, w')" by simp
    then have "watchLoop lib directory onChange a1 w1 = watchLoop lib directory onChange a w'"
      by (rule Suc.IH)
    with Inr c show ?thesis by (subst watchLoop.simps) simp
  qed
qed

lemma watchTurns_returns:
  "watchTurns n lib directory onChange afterIndex w = Inl (r, w') \<Longrightarrow>
     \<exists>err. r = Some err \<and> \<not> shouldIgnoreError lib err"
proof (induction n arbitrary: afterIndex w)
  case 0
  then show ?case by simp
next
  case (Suc n)
  show ?case
  proof (cases "watchTurn lib directory onChange afterIndex w")
    case (Inl result)
    with Suc.prems have "watchTurn lib directory onChange afterIndex w = Inl (r, w')" by simp
    from watchTurn_returns [OF this] show ?thesis by blast
  next
    case (Inr continue)
    obtain a' w1 where c: "continue = (a', w1)" by (cases continue)
    with Inr Suc.prems have "watchTurns n lib directory onChange a' w1 = Inl (r, w')" by simp
    then show ?thesis by (rule Suc.IH)
  qed
qed

lemma WatchRecursive_returns_error:
  assumes "WatchRecursive lib directory onChange w = Some (r, w')"
  shows "\<exists>err. r = Some err \<and> \<not> shouldIgnoreError lib err"
proof -
  from assms obtain n where "watchTurns n lib directory onChange 0 w = Inl (r, w')"
    unfolding WatchRecursive_turns by blast
  then show ?thesis by (rule watchTurns_returns)
qed

lemma delivered_Suc:
  assumes "watcher_Next lib directory \<lparr>watch_Recursive = True, watch_AfterIndex = afterIndex\<rparr> (store w)
      = (reply, s')"
  shows "delivered (Suc n) lib directory onChange afterIndex w =
     (case reply of
        Inl err \<Rightarrow>
          if shouldIgnoreError lib err
          then delivered n lib directory onChange afterIndex
                 (w\<lparr>store := s', requests := requests w @
                    [WatchReq directory \<lparr>watch_Recursive = True, watch_AfterIndex = afterIndex\<rparr>]\<rparr>)
          else []
      | Inr response \<Rightarrow>
          response # delivered n lib directory onChange (resp_Index response)
               (w\<lparr>store := s', requests := requests w @
                    [WatchReq directory \<lparr>watch_Recursive = True, watch_AfterIndex = afterIndex\<rparr>],
                 user := deliver onChange (user w) response\<rparr>))"
  using assms by (simp add: send_Next_eq deliver_def split: sum.splits)

lemma cursor_and_calls:
  "watchTurns n lib directory onChange afterIndex w = Inr (a, w') \<Longrightarrow>
     a = last (afterIndex # map resp_Index (delivered n lib directory onChange afterIndex w))
     \<and> user w' = foldl (deliver onChange) (user w) (delivered n lib directory onChange afterIndex w)"
proof (induction n arbitrary: afterIndex w)
  case 0
  then show ?case by simp
next
  case (Suc n)
  obtain reply s' where
    nx: "watcher_Next lib directory \<lparr>watch_Recursive = True, watch_AfterIndex = afterIndex\<rparr> (store w)
      = (reply, s')"
    by (cases "watcher_Next lib directory \<lparr>watch_Recursive = True, watch_AfterIndex = afterIndex\<rparr> (store w)")
  note t = watchTurn_reply [OF nx, of onChange] and d = delivered_Suc [OF nx, of n onChange]
  show ?case
  proof (cases reply)
    case (Inl err)
    show ?thesis
    proof (cases "shouldIgnoreError lib err")
      case True
      with Inl t Suc.prems Suc.IH d show ?thesis by (simp del: delivered.simps)
    next
      case False
      with Inl t Suc.prems show ?thesis by simp
    qed
  next
    case (Inr response)
    with t Suc.prems Suc.IH d show ?thesis by (simp del: delivered.simps)
  qed
qed

lemma delivered_increasing:
  "honours_AfterIndex lib \<Longrightarrow>
     sorted_wrt (<) (afterIndex # map resp_Index (delivered n lib directory onChange afterIndex w))"
proof (induction n arbitrary: afterIndex w)
  case 0
  then show ?case by simp
next
  case (Suc n)
  obtain reply s' where
    nx: "watcher_Next lib directory \<lparr>watch_Recursive = True, watch_AfterIndex = afterIndex\<rparr> (store w)
      = (reply, s')"
    by (cases "watcher_Next lib directory \<lparr>watch_Recursive = True, watch_AfterIndex = afterIndex\<rparr> (store w)")
  note d = delivered_Suc [OF nx, of n onChange]
  show ?case
  proof (cases reply)
    case (Inl err)
    with d Suc.IH [OF Suc.prems] show ?thesis by (simp del: delivered.simps)
  next
    case (Inr response)
    with nx Suc.prems have "afterIndex < resp_Index response"
      unfolding honours_AfterIndex_def by fastforce
    moreover from Suc.IH [OF Suc.prems, of "resp_Index response"]
    have rest: "sorted_wrt (<) (resp_Index response # map resp_Index
        (delivered n lib directory onChange (resp_Index response)
           (w\<lparr>store := s', requests := requests w @
                [WatchReq directory \<lparr>watch_Recursive = True, watch_AfterIndex = afterIndex\<rparr>],
              user := deliver onChange (user w) response\<rparr>)))" .
    ultimately have "sorted_wrt (<) (afterIndex # resp_Index response # map resp_Index
        (delivered n lib directory onChange (resp_Index response)
           (w\<lparr>store := s', requests := requests w @
                [WatchReq directory \<lparr>watch_Recursive = True, watch_AfterIndex = afterIndex\<rparr>],
              user := deliver onChange (user w) response\<rparr>)))"
      by (auto simp del: delivered.simps intro: less_trans)
    with Inr d show ?thesis by (simp del: delivered.simps)
  qed
qed

text \<open>
  C3. WatchRecursive keeps a cursor that starts at 0. After any number of turns of its loop
  the cursor is the revision (\<open>response.Index\<close>) of the last event handed to the callback,
  or still 0 when there was none; the callback has been called once for each event, in order;
  and the next wait asks for the events after the cursor. With a store that answers a watch
  only with events beyond \<open>AfterIndex\<close>, the revisions delivered are strictly increasing: no
  event is delivered twice.
\<close>

theorem watch_cursor:
  assumes "watchTurns n lib directory onChange 0 w = Inr (a, w')"
  shows "WatchRecursive lib directory onChange w = watchLoop lib directory onChange a w'
     \<and> a = last (0 # map resp_Index (delivered n lib directory onChange 0 w))
     \<and> user w' = foldl (deliver onChange) (user w) (delivered n lib directory onChange 0 w)
     \<and> requests (turn_world (watchTurn lib directory onChange a w'))
         = requests w' @ [WatchReq directory \<lparr>watch_Recursive = True, watch_AfterIndex = a\<rparr>]
     \<and> (honours_AfterIndex lib \<longrightarrow>
          sorted_wrt (<) (map resp_Index (delivered n lib directory onChange 0 w)))"
proof (intro conjI impI)
  from watchLoop_continues [OF assms]
  show "WatchRecursive lib directory onChange w = watchLoop lib directory onChange a w'"
    by (simp add: WatchRecursive_def)
  from cursor_and_calls [OF assms]
  show "a = last (0 # map resp_Index (delivered n lib directory onChange 0 w))"
    and "user w' = foldl (deliver onChange) (user w) (delivered n lib directory onChange 0 w)"
    by blast+
  show "requests (turn_world (watchTurn lib directory onChange a w'))
         = requests w' @ [WatchReq directory \<lparr>watch_Recursive = True, watch_AfterIndex = a\<rparr>]"
    by (rule watchTurn_requests)
  assume "honours_AfterIndex lib"
  from delivered_increasing [OF this, of 0 n directory onChange w]
  show "sorted_wrt (<) (map resp_Index (delivered n lib directory onChange 0 w))" by simp
qed

theorem watch_cursor_witness:
  "honours_AfterIndex mem_api
   \<and> fst (projr (watchTurns 3 mem_api ''/a'' record_call 0 (world_of mem_cleared_ptr))) = 9
   \<and> delivered 3 mem_api ''/a'' record_call 0 (world_of mem_cleared_ptr) = [event7, event9]
   \<and> user (snd (projr (watchTurns 3 mem_api ''/a'' record_call 0 (world_of mem_cleared_ptr))))
       = [(''/a/x'', ''v''), (''/a/y'', ''w'')]
   \<and> sorted_wrt (<) (map resp_Index (delivered 3 mem_api ''/a'' record_call 0 (world_of mem_cleared_ptr)))"
proof -
  note c = watch_cursor [OF mem_turns_ptr]
  from c mem_honours_AfterIndex
  have "sorted_wrt (<) (map resp_Index (delivered 3 mem_api ''/a'' record_call 0 (world_of mem_cleared_ptr)))"
    by blast
  then show ?thesis
    using mem_honours_AfterIndex mem_turns_ptr mem_delivered_ptr by simp
qed

lemma value_error_is_returned:
  assumes "watcher_Next lib directory \<lparr>watch_Recursive = True, watch_AfterIndex = afterIndex\<rparr> (store w)
      = (Inl (ValClientError e), s')"
  shows "watchLoop lib directory onChange afterIndex w =
     Some (Some (ValClientError e),
           w\<lparr>store := s', requests := requests w @
              [WatchReq directory \<lparr>watch_Recursive = True, watch_AfterIndex = afterIndex\<rparr>]\<rparr>)"
  using watchTurn_reply [OF assms, of onChange] by (subst watchLoop.simps) simp

lemma pointer_error_is_retried:
  assumes "watcher_Next lib directory \<lparr>watch_Recursive = True, watch_AfterIndex = afterIndex\<rparr> (store w)
      = (Inl (PtrClientError e), s')" and "err_Code e = ErrorCodeEventIndexCleared lib"
  shows "watchLoop lib directory onChange afterIndex w =
     watchLoop lib directory onChange afterIndex
       (w\<lparr>store := s', requests := requests w @
              [WatchReq directory \<lparr>watch_Recursive = True, watch_AfterIndex = afterIndex\<rparr>]\<rparr>)"
  using watchTurn_reply [OF assms(1), of onChange] assms(2) by (subst watchLoop.simps) simp

lemma other_error_is_returned:
  assumes "watcher_Next lib directory \<lparr>watch_Recursive = True, watch_AfterIndex = afterIndex\<rparr> (store w)
      = (Inl err, s')" and "\<not> shouldIgnoreError lib err"
  shows "watchLoop lib directory onChange afterIndex w =
     Some (Some err,
           w\<lparr>store := s', requests := requests w @
              [WatchReq directory \<lparr>watch_Recursive = True, watch_AfterIndex = afterIndex\<rparr>]\<rparr>)"
  using watchTurn_reply [OF assms(1), of onChange] assms(2) by (subst watchLoop.simps) simp

text \<open>
  C2 says that an error of the store with the code of a cleared event index makes the loop
  try again from its cursor. The type switch of \<open>shouldIgnoreError\<close> has the one case
  \<open>*client.Error\<close>: an error of that code held as a \<open>client.Error\<close> value, which is how
  the etcd client package builds its errors, takes the default branch. The loop returns it to
  the caller after the first event, and the second event is never delivered.
\<close>

theorem cleared_index_by_value_is_returned:
  "err_Code cleared = ErrorCodeEventIndexCleared mem_api
   \<and> \<not> shouldIgnoreError mem_api (ValClientError cleared)
   \<and> WatchRecursive mem_api ''/a'' record_call (world_of mem_cleared_val) =
       Some (Some (ValClientError cleared),
             \<lparr>store = mem_empty\<lparr>mem_feed := [Inr event9]\<rparr>,
              requests = [WatchReq ''/a'' \<lparr>watch_Recursive = True, watch_AfterIndex = 0\<rparr>,
                          WatchReq ''/a'' \<lparr>watch_Recursive = True, watch_AfterIndex = 7\<rparr>],
              user = [(''/a/x'', ''v'')]\<rparr>)"
proof -
  have "watchTurns 2 mem_api ''/a'' record_call 0 (world_of mem_cleared_val) =
       Inl (Some (ValClientError cleared),
             \<lparr>store = mem_empty\<lparr>mem_feed := [Inr event9]\<rparr>,
              requests = [WatchReq ''/a'' \<lparr>watch_Recursive = True, watch_AfterIndex = 0\<rparr>,
                          WatchReq ''/a'' \<lparr>watch_Recursive = True, watch_AfterIndex = 7\<rparr>],
              user = [(''/a/x'', ''v'')]\<rparr>)"
    by (simp add: numeral_2_eq_2 watchTurn_def send_Next_def mem_simps(4) world_of_def
        mem_Next_cleared_val_1 mem_Next_cleared_val_2 event_fields record_call_def)
  then have "watchLoop mem_api ''/a'' record_call 0 (world_of mem_cleared_val) =
       Some (Some (ValClientError cleared),
             \<lparr>store = mem_empty\<lparr>mem_feed := [Inr event9]\<rparr>,
              requests = [WatchReq ''/a'' \<lparr>watch_Recursive = True, watch_AfterIndex = 0\<rparr>,
                          WatchReq ''/a'' \<lparr>watch_Recursive = True, watch_AfterIndex = 7\<rparr>],
              user = [(''/a/x'', ''v'')]\<rparr>)"
    by (rule watchTurns_loop)
  then show ?thesis by (simp add: WatchRecursive_def cleared_code)
qed

text \<open>
  The rest of what is said of the loop holds: it returns nothing but an error that is not
  nil and that \<open>shouldIgnoreError\<close> rejects (\<open>WatchRecursive_returns_error\<close>), such an
  error ends the loop and is returned as it is (\<open>other_error_is_returned\<close>), and an error
  of the code held by pointer is retried from the same cursor (\<open>pointer_error_is_retried\<close>),
  as this run shows.
\<close>

lemma cleared_index_by_pointer_is_retried:
  "WatchRecursive mem_api ''/a'' record_call (world_of mem_cleared_ptr) =
       Some (Some (OtherError ''watch closed''),
             \<lparr>store = mem_empty\<lparr>mem_feed := []\<rparr>,
              requests = [WatchReq ''/a'' \<lparr>watch_Recursive = True, watch_AfterIndex = 0\<rparr>,
                          WatchReq ''/a'' \<lparr>watch_Recursive = True, watch_AfterIndex = 7\<rparr>,
                          WatchReq ''/a'' \<lparr>watch_Recursive = True, watch_AfterIndex = 7\<rparr>,
                          WatchReq ''/a'' \<lparr>watch_Recursive = True, watch_AfterIndex = 9\<rparr>],
              user = [(''/a/x'', ''v''), (''/a/y'', ''w'')]\<rparr>)"
proof -
  have "watchTurns 4 mem_api ''/a'' record_call 0 (world_of mem_cleared_ptr) =
       Inl (Some (OtherError ''watch closed''),
             \<lparr>store = mem_empty\<lparr>mem_feed := []\<rparr>,
              requests = [WatchReq ''/a'' \<lparr>watch_Recursive = True, watch_AfterIndex = 0\<rparr>,
                          WatchReq ''/a'' \<lparr>watch_Recursive = True, watch_AfterIndex = 7\<rparr>,
                          WatchReq ''/a'' \<lparr>watch_Recursive = True, watch_AfterIndex = 7\<rparr>,
                          WatchReq ''/a'' \<lparr>watch_Recursive = True, watch_AfterIndex = 9\<rparr>],
              user = [(''/a/x'', ''v''), (''/a/y'', ''w'')]\<rparr>)"
    by (simp add: eval_nat_numeral watchTurn_def send_Next_def mem_simps(4) world_of_def
        mem_Next_cleared_ptr_1 mem_Next_cleared_ptr_2 mem_Next_event9 mem_Next_closed cleared_code
        event_fields record_call_def)
  then show ?thesis unfolding WatchRecursive_def by (rule watchTurns_loop)
qed

end
